theory Spec2Isabelle
  imports Main "HOL-Library.Sublist"
begin

section \<open>Jira links for release-please commits\<close>

text \<open>
  A shallow embedding of \<^verbatim>\<open>jira-link.ts\<close> (\<^verbatim>\<open>extractJiraTicket\<close>,
  \<^verbatim>\<open>generateJiraLink\<close>, \<^verbatim>\<open>formatJiraLink\<close>, \<^verbatim>\<open>addJiraLinksToCommits\<close>) and of
  \<^verbatim>\<open>JiraLinkPlugin.processCommits\<close>, the wrapper that calls it inside a
  \<^verbatim>\<open>try\<close>/\<^verbatim>\<open>catch\<close>.
\<close>

subsection \<open>Strings\<close>

text \<open>
  A string is the list of its UTF-16 code units, each a natural number.  \<open>js\<close> turns a
  literal of the source, all of which are ASCII, into such a list.
\<close>

type_synonym js_string = "nat list"

definition js :: "string \<Rightarrow> js_string" where
  "js s = map of_char s"

text \<open>
  \<^verbatim>\<open>String.prototype.toUpperCase\<close> follows the Unicode case tables of the runtime, which
  are no part of the repository.  It is a parameter \<open>toUpperCase\<close> of every function
  that calls it.  Where a theorem computes a result on ASCII text it assumes of the
  parameter what holds of the built-in: on a string of ASCII code units it is the ASCII
  mapping.  The examples that are evaluated, whose texts are ASCII, take the ASCII
  mapping itself.
\<close>

definition ascii_upper_unit :: "nat \<Rightarrow> nat" where
  "ascii_upper_unit c = (if 97 \<le> c \<and> c \<le> 122 then c - 32 else c)"

definition ascii_lower_unit :: "nat \<Rightarrow> nat" where
  "ascii_lower_unit c = (if 65 \<le> c \<and> c \<le> 90 then c + 32 else c)"

definition ascii_toUpperCase :: "js_string \<Rightarrow> js_string" where
  "ascii_toUpperCase s = map ascii_upper_unit s"

definition ascii_faithful :: "(js_string \<Rightarrow> js_string) \<Rightarrow> bool" where
  "ascii_faithful toUpperCase =
     (\<forall>s. list_all (\<lambda>c. c < 128) s \<longrightarrow> toUpperCase s = ascii_toUpperCase s)"

text \<open>\<^verbatim>\<open>s.includes(t)\<close>: \<open>t\<close> occurs in \<open>s\<close> as a contiguous run of code units.\<close>

definition str_includes :: "js_string \<Rightarrow> js_string \<Rightarrow> bool" where
  "str_includes s t = sublist t s"

text \<open>
  The truthiness of a value of type \<^verbatim>\<open>string | undefined\<close> (or \<^verbatim>\<open>string | null\<close>):
  \<open>None\<close> and the empty string are falsy.  \<open>truthy_string v\<close> is the string when
  \<open>v\<close> is truthy.
\<close>

definition truthy_string :: "js_string option \<Rightarrow> js_string option" where
  "truthy_string v = (case v of None \<Rightarrow> None | Some s \<Rightarrow> if s = [] then None else Some s)"

text \<open>The decimal numeral that a template literal prints for a length.\<close>

fun show_nat :: "nat \<Rightarrow> js_string" where
  "show_nat n = (if n < 10 then [48 + n] else show_nat (n div 10) @ [48 + n mod 10])"

declare show_nat.simps [simp del]

subsection \<open>Regular expressions\<close>

text \<open>
  A \<^verbatim>\<open>RegExp\<close> object has a pattern, flags and the mutable property \<^verbatim>\<open>lastIndex\<close>.
  The pattern is represented by its matcher: \<open>matcher R S i\<close> is \<open>None\<close> when the
  pattern does not match \<open>S\<close> at index \<open>i\<close>, and otherwise the number of code units
  matched there with the texts captured by the groups 1, 2, ..., \<open>None\<close> standing for
  \<^verbatim>\<open>undefined\<close> (a group that took no part in the match).  The flags that decide where
  \<^verbatim>\<open>match\<close> looks and what it returns are fields; the flags \<^verbatim>\<open>i\<close>, \<^verbatim>\<open>m\<close> and \<^verbatim>\<open>s\<close> only
  change the matcher.  \<^verbatim>\<open>lastIndex\<close> is kept in the state and passed to the functions
  below, which return its new value.
\<close>

record RegExp =
  matcher :: "js_string \<Rightarrow> nat \<Rightarrow> (nat \<times> js_string option list) option"
  global :: bool
  sticky :: bool
  unicode :: bool

definition AdvanceStringIndex :: "js_string \<Rightarrow> nat \<Rightarrow> bool \<Rightarrow> nat" where
  "AdvanceStringIndex S index fullUnicode =
     (if \<not> fullUnicode then index + 1
      else if length S \<le> index + 1 then index + 1
      else if 0xD800 \<le> S ! index \<and> S ! index \<le> 0xDBFF
              \<and> 0xDC00 \<le> S ! (index + 1) \<and> S ! (index + 1) \<le> 0xDFFF
      then index + 2
      else index + 1)"

text \<open>
  The loop of \<^verbatim>\<open>RegExpBuiltinExec\<close>: from index \<open>i\<close> on, the first index at which the
  pattern matches (index \<open>i\<close> or none for a sticky rule), with the length of the match
  and the captures.
\<close>

function scan :: "RegExp \<Rightarrow> js_string \<Rightarrow> nat \<Rightarrow> (nat \<times> nat \<times> js_string option list) option" where
  "scan R S i =
     (if length S < i then None
      else case matcher R S i of
             Some (n, caps) \<Rightarrow> Some (i, n, caps)
           | None \<Rightarrow> if sticky R then None else scan R S (AdvanceStringIndex S i (unicode R)))"
  by pat_completeness auto
termination
  by (relation "measure (\<lambda>(R, S, i). Suc (length S) - i)")
     (auto simp: AdvanceStringIndex_def)

declare scan.simps [simp del]

text \<open>
  \<^verbatim>\<open>RegExpBuiltinExec(R, S)\<close> with \<^verbatim>\<open>R.lastIndex\<close> equal to \<open>li\<close>: the match array or
  \<^verbatim>\<open>null\<close>, and the new \<^verbatim>\<open>lastIndex\<close>.  Entry 0 of the array is the matched text.
\<close>

definition RegExpBuiltinExec ::
  "RegExp \<Rightarrow> js_string \<Rightarrow> nat \<Rightarrow> js_string option list option \<times> nat" where
  "RegExpBuiltinExec R S li =
     (let tracked = (global R \<or> sticky R)
      in case scan R S (if tracked then li else 0) of
           None \<Rightarrow> (None, if tracked then 0 else li)
         | Some (j, n, caps) \<Rightarrow>
             (Some (Some (take n (drop j S)) # caps), if tracked then j + n else li))"

text \<open>
  The loop of \<^verbatim>\<open>RegExp.prototype[Symbol.match]\<close> for a global rule, entered with
  \<^verbatim>\<open>lastIndex\<close> set to 0: the texts of all matches.  After an empty match the index is
  advanced.
\<close>

function match_all :: "RegExp \<Rightarrow> js_string \<Rightarrow> nat \<Rightarrow> js_string list" where
  "match_all R S li =
     (case scan R S li of
        None \<Rightarrow> []
      | Some (j, n, caps) \<Rightarrow>
          take n (drop j S)
          # match_all R S (if take n (drop j S) = [] then AdvanceStringIndex S (j + n) (unicode R)
                           else j + n))"
  by pat_completeness auto
termination
proof -
  have bounds: "i \<le> j \<and> j \<le> length S" if "scan R S i = Some (j, n, caps)" for R S i j n caps
    using that
  proof (induction R S i rule: scan.induct)
    case (1 R S i)
    show ?case
    proof (cases "length S < i")
      case True
      with "1.prems" scan.simps [of R S i] show ?thesis by simp
    next
      case False
      show ?thesis
      proof (cases "matcher R S i")
        case (Some r)
        with False "1.prems" scan.simps [of R S i] show ?thesis by (auto split: prod.splits)
      next
        case None
        show ?thesis
        proof (cases "sticky R")
          case True
          with None False "1.prems" scan.simps [of R S i] show ?thesis by simp
        next
          case st: False
          with None False "1.prems" scan.simps [of R S i]
          have "scan R S (AdvanceStringIndex S i (unicode R)) = Some (j, n, caps)" by simp
          from "1.IH" [OF False None st this]
          show ?thesis by (auto simp: AdvanceStringIndex_def split: if_splits)
        qed
      qed
    qed
  qed
  show ?thesis
  proof (relation "measure (\<lambda>(R, S, li). Suc (length S) - li)", goal_cases)
    case 1
    show ?case by simp
  next
    case (2 R S li r j p n caps)
    then have "scan R S li = Some (j, n, caps)" by simp
    from bounds [OF this] have b: "li \<le> j" "j \<le> length S" by simp_all
    show ?case
    proof (cases "take n (drop j S) = []")
      case True
      with b show ?thesis by (auto simp: AdvanceStringIndex_def)
    next
      case False
      then have "0 < n" by (cases n) simp_all
      with False b show ?thesis by simp
    qed
  qed
qed

declare match_all.simps [simp del]

text \<open>
  \<^verbatim>\<open>S.match(R)\<close> with \<^verbatim>\<open>R.lastIndex\<close> equal to \<open>li\<close>: what it returns and the new
  \<^verbatim>\<open>lastIndex\<close>.  A global rule gives the array of all matched texts, or \<^verbatim>\<open>null\<close> when
  there is none, and ends with \<^verbatim>\<open>lastIndex\<close> 0; any other rule gives what
  \<^verbatim>\<open>RegExpBuiltinExec\<close> gives.
\<close>

definition js_match :: "RegExp \<Rightarrow> js_string \<Rightarrow> nat \<Rightarrow> js_string option list option \<times> nat" where
  "js_match R S li =
     (if global R
      then (case match_all R S 0 of
              [] \<Rightarrow> (None, 0)
            | m # ms \<Rightarrow> (Some (map Some (m # ms)), 0))
      else RegExpBuiltinExec R S li)"

text \<open>Reading an array entry: \<^verbatim>\<open>undefined\<close> beyond the end.\<close>

definition js_index :: "'a option list \<Rightarrow> nat \<Rightarrow> 'a option" where
  "js_index arr i = (if i < length arr then arr ! i else None)"

text \<open>
  Pattern literals are given a matcher by a backtracking matcher for a fragment of the
  ECMAScript pattern syntax: classes of ASCII characters (a list of ranges; a single
  character is a one-character range), greedy bounded or unbounded repetition of a
  class, concatenation, alternation and capturing groups.  The alternatives of a match
  are listed in the order in which the ECMAScript matcher tries them (longest repetition
  first, left alternative first); the first one is the match.
\<close>

type_synonym char_class = "(char \<times> char) list"

datatype pattern =
    Class char_class
  | Repeat nat "nat option" char_class
  | Empty
  | Seq pattern pattern
  | Alt pattern pattern
  | Group pattern

definition in_range :: "char \<times> char \<Rightarrow> nat \<Rightarrow> bool" where
  "in_range r c = (of_char (fst r) \<le> c \<and> c \<le> of_char (snd r))"

text \<open>
  With the \<^verbatim>\<open>i\<close> flag a code unit matches a class when a case variant of it does.  For
  a class of ASCII characters these are the ASCII case variants: without the \<^verbatim>\<open>u\<close> flag
  no code unit from 128 on is like an ASCII character.
\<close>

definition class_matches :: "bool \<Rightarrow> char_class \<Rightarrow> nat \<Rightarrow> bool" where
  "class_matches ic rs c =
     list_ex (\<lambda>r. in_range r c \<or>
                  (ic \<and> (in_range r (ascii_upper_unit c) \<or> in_range r (ascii_lower_unit c))))
       rs"

text \<open>\<open>repeat ic rs lo hi s\<close>: what is left of \<open>s\<close> after \<^verbatim>\<open>[rs]{lo,hi}\<close>, greedy.\<close>

fun repeat :: "bool \<Rightarrow> char_class \<Rightarrow> nat \<Rightarrow> nat option \<Rightarrow> js_string \<Rightarrow> js_string list" where
  "repeat ic rs lo hi [] = (if lo = 0 then [[]] else [])"
| "repeat ic rs lo hi (c # s) =
     (if hi \<noteq> Some 0 \<and> class_matches ic rs c
      then repeat ic rs (lo - 1) (map_option (\<lambda>h. h - 1) hi) s
      else [])
     @ (if lo = 0 then [c # s] else [])"

fun ngroups :: "pattern \<Rightarrow> nat" where
  "ngroups (Class rs) = 0"
| "ngroups (Repeat lo hi rs) = 0"
| "ngroups Empty = 0"
| "ngroups (Seq p q) = ngroups p + ngroups q"
| "ngroups (Alt p q) = ngroups p + ngroups q"
| "ngroups (Group p) = Suc (ngroups p)"

text \<open>
  \<open>matches ic p s\<close>: the ways in which \<open>p\<close> matches at the start of \<open>s\<close>, each with the
  rest of the input and the captures of the groups of \<open>p\<close>, in the order of their
  opening parentheses.
\<close>

fun matches :: "bool \<Rightarrow> pattern \<Rightarrow> js_string \<Rightarrow> (js_string \<times> js_string option list) list" where
  "matches ic (Class rs) s =
     (case s of
        [] \<Rightarrow> []
      | c # s' \<Rightarrow> if class_matches ic rs c then [(s', [])] else [])"
| "matches ic (Repeat lo hi rs) s = map (\<lambda>s'. (s', [])) (repeat ic rs lo hi s)"
| "matches ic Empty s = [(s, [])]"
| "matches ic (Seq p q) s =
     concat (map (\<lambda>(s1, c1). map (\<lambda>(s2, c2). (s2, c1 @ c2)) (matches ic q s1))
                 (matches ic p s))"
| "matches ic (Alt p q) s =
     map (\<lambda>(s1, c1). (s1, c1 @ replicate (ngroups q) None)) (matches ic p s)
     @ map (\<lambda>(s2, c2). (s2, replicate (ngroups p) None @ c2)) (matches ic q s)"
| "matches ic (Group p) s =
     map (\<lambda>(s1, c1). (s1, Some (take (length s - length s1) s) # c1)) (matches ic p s)"

definition pattern_matcher ::
  "bool \<Rightarrow> pattern \<Rightarrow> js_string \<Rightarrow> nat \<Rightarrow> (nat \<times> js_string option list) option" where
  "pattern_matcher ic p S i =
     (case matches ic p (drop i S) of
        [] \<Rightarrow> None
      | (rest, caps) # _ \<Rightarrow> Some (length S - i - length rest, caps))"

text \<open>
  The literal \<^verbatim>\<open>/p/flags\<close>, for flags among \<^verbatim>\<open>i\<close>, \<^verbatim>\<open>g\<close> and \<^verbatim>\<open>y\<close>.
\<close>

definition literal :: "pattern \<Rightarrow> string \<Rightarrow> RegExp" where
  "literal p flags =
     \<lparr>matcher = pattern_matcher (CHR ''i'' \<in> set flags) p,
      global = (CHR ''g'' \<in> set flags),
      sticky = (CHR ''y'' \<in> set flags),
      unicode = False\<rparr>"

definition upper_letters :: char_class where
  "upper_letters = [(CHR ''A'', CHR ''Z'')]"

definition digits :: char_class where
  "digits = [(CHR ''0'', CHR ''9'')]"

definition chr :: "char \<Rightarrow> pattern" where
  "chr c = Class [(c, c)]"

text \<open>\<^verbatim>\<open>([A-Z]{2,10}-\d+)\<close>\<close>

definition ticket_shape :: pattern where
  "ticket_shape =
     Group (Seq (Repeat 2 (Some 10) upper_letters) (Seq (chr CHR ''-'') (Repeat 1 None digits)))"

text \<open>The default of \<^verbatim>\<open>addJiraLinksToCommits\<close>: \<^verbatim>\<open>/([A-Z]{2,10}-\d+)/i\<close>\<close>

definition default_ticketPattern :: RegExp where
  "default_ticketPattern = literal ticket_shape ''i''"

subsection \<open>The data\<close>

datatype js_error = TypeError

datatype link_style = Inline | Newline

record JiraLinkOptions =
  jiraBaseUrl :: "js_string option"
  ticketPattern :: "RegExp option"
  linkStyle :: "link_style option"
  debug :: "bool option"

text \<open>
  Of a pull request and of a commit, the fields that the code reads or writes; the
  others (\<^verbatim>\<open>type\<close>, \<^verbatim>\<open>scope\<close>, \<^verbatim>\<open>notes\<close>, \<^verbatim>\<open>files\<close>, ...) are the extension of the record.
\<close>

record PullRequest =
  headBranchName :: "js_string option"

record 'p ConventionalCommit =
  sha :: js_string
  message :: js_string
  bareMessage :: js_string
  pullRequest :: "'p PullRequest_scheme option"

text \<open>
  Commits are objects, the array holds references to them and the loop updates them in
  place: the state is a store of commits by address, with what has been printed on the
  console, what the plugin's logger has received, and the \<^verbatim>\<open>lastIndex\<close> of the
  \<^verbatim>\<open>RegExp\<close> object that the options hold.
\<close>

datatype log_entry = Info js_string | Error js_error

record ('p, 'c) state =
  heap :: "nat \<Rightarrow> ('p, 'c) ConventionalCommit_scheme"
  console :: "js_string list"
  logger :: "log_entry list"
  lastIndex :: nat

subsection \<open>The functions of \<^verbatim>\<open>jira-link.ts\<close>\<close>

text \<open>
  \<^verbatim>\<open>match ? match[1].toUpperCase() : null\<close>, with the new \<^verbatim>\<open>lastIndex\<close> of the rule.
  When the rule matches and entry 1 of the match array is \<^verbatim>\<open>undefined\<close>, the method
  call raises a \<^verbatim>\<open>TypeError\<close>.
\<close>

definition extractJiraTicket ::
  "(js_string \<Rightarrow> js_string) \<Rightarrow> js_string \<Rightarrow> RegExp \<Rightarrow> nat
     \<Rightarrow> (js_error + js_string option) \<times> nat" where
  "extractJiraTicket toUpperCase branchName ticketPattern' li =
     (case js_match ticketPattern' branchName li of
        (None, li') \<Rightarrow> (Inr None, li')
      | (Some match, li') \<Rightarrow>
          (case js_index match 1 of
             None \<Rightarrow> (Inl TypeError, li')
           | Some g \<Rightarrow> (Inr (Some (toUpperCase g)), li')))"

definition generateJiraLink :: "js_string \<Rightarrow> js_string \<Rightarrow> js_string" where
  "generateJiraLink ticketId jiraBaseUrl' = jiraBaseUrl' @ js ''/browse/'' @ ticketId"

definition formatJiraLink :: "js_string \<Rightarrow> js_string \<Rightarrow> link_style \<Rightarrow> js_string" where
  "formatJiraLink ticketId jiraBaseUrl' linkStyle' =
     (let link = generateJiraLink ticketId jiraBaseUrl'
      in if linkStyle' = Newline
         then js ''\<newline>  ['' @ ticketId @ js '']('' @ link @ js '')''
         else js '' (['' @ ticketId @ js '']('' @ link @ js ''))'')"

text \<open>Printing on the console when \<open>dbg\<close> is set.\<close>

definition log_if :: "bool \<Rightarrow> js_string \<Rightarrow> js_string list \<Rightarrow> js_string list" where
  "log_if dbg line out = (if dbg then out @ [line] else out)"

text \<open>
  The body of the \<^verbatim>\<open>for\<close> loop on one commit, the console and the \<^verbatim>\<open>lastIndex\<close> of
  the rule: the commit and the console after it, or the error that
  \<^verbatim>\<open>extractJiraTicket\<close> raised (it is raised before the body has changed the commit or
  printed anything), and the new \<^verbatim>\<open>lastIndex\<close>.  Its parameters \<open>url\<close>, \<open>rule\<close>,
  \<open>style\<close> and \<open>dbg\<close> are the locals \<^verbatim>\<open>jiraBaseUrl\<close>, \<^verbatim>\<open>ticketPattern\<close>, \<^verbatim>\<open>linkStyle\<close>
  and \<^verbatim>\<open>debug\<close> of \<^verbatim>\<open>addJiraLinksToCommits\<close>, the options with their defaults filled in.
\<close>

definition loop_body ::
  "(js_string \<Rightarrow> js_string) \<Rightarrow> js_string \<Rightarrow> RegExp \<Rightarrow> link_style \<Rightarrow> bool
     \<Rightarrow> ('p, 'c) ConventionalCommit_scheme \<Rightarrow> js_string list \<Rightarrow> nat
     \<Rightarrow> (js_error + (('p, 'c) ConventionalCommit_scheme \<times> js_string list)) \<times> nat" where
  "loop_body toUpperCase url rule style dbg commit out li =
     (case Option.bind (pullRequest commit) (\<lambda>pr. truthy_string (headBranchName pr)) of
        None \<Rightarrow>
          (Inr (commit,
                log_if dbg
                  (js ''Commit '' @ take 7 (sha commit) @ js '' has no associated pull request'')
                  out),
           li)
      | Some branchName \<Rightarrow>
          (case extractJiraTicket toUpperCase branchName rule li of
             (Inl e, li') \<Rightarrow> (Inl e, li')
           | (Inr ticket, li') \<Rightarrow>
               (case truthy_string ticket of
                  None \<Rightarrow>
                    (Inr (commit,
                          log_if dbg (js ''No Jira ticket found in branch: '' @ branchName) out),
                     li')
                | Some ticketId \<Rightarrow>
                    (let out1 = log_if dbg
                           (js ''Found Jira ticket '' @ ticketId @ js '' in branch: '' @ branchName)
                           out;
                         jiraLink = formatJiraLink ticketId url style;
                         fresh = (\<not> str_includes (message commit) ticketId);
                         commit1 = (if fresh then commit\<lparr>message := message commit @ jiraLink\<rparr>
                                    else commit);
                         out2 = (if fresh
                                 then log_if dbg (js ''Added Jira link to commit message'') out1
                                 else out1);
                         commit2 = (if \<not> str_includes (bareMessage commit1) ticketId
                                    then commit1\<lparr>bareMessage := bareMessage commit1 @ jiraLink\<rparr>
                                    else commit1)
                     in (Inr (commit2, out2), li')))))"

text \<open>
  The loop over the array of references.  An error leaves the loop at once, with the
  store as the iterations before it have left it and the \<^verbatim>\<open>lastIndex\<close> that the failed
  extraction has left.
\<close>

fun for_commits ::
  "(js_string \<Rightarrow> js_string) \<Rightarrow> js_string \<Rightarrow> RegExp \<Rightarrow> link_style \<Rightarrow> bool \<Rightarrow> nat list
     \<Rightarrow> ('p, 'c) state \<Rightarrow> js_error option \<times> ('p, 'c) state" where
  "for_commits toUpperCase url rule style dbg [] st = (None, st)"
| "for_commits toUpperCase url rule style dbg (a # as) st =
     (case loop_body toUpperCase url rule style dbg (heap st a) (console st) (lastIndex st) of
        (Inl e, li') \<Rightarrow> (Some e, st\<lparr>lastIndex := li'\<rparr>)
      | (Inr (commit', out'), li') \<Rightarrow>
          for_commits toUpperCase url rule style dbg as
            (st\<lparr>heap := (heap st)(a := commit'), console := out', lastIndex := li'\<rparr>))"

text \<open>The defaults: \<^verbatim>\<open>options.x || d\<close> takes \<open>d\<close> when \<open>x\<close> is missing or falsy.\<close>

definition the_jiraBaseUrl :: "JiraLinkOptions \<Rightarrow> js_string" where
  "the_jiraBaseUrl options =
     (case truthy_string (jiraBaseUrl options) of
        None \<Rightarrow> js ''https://yourcompany.atlassian.net''
      | Some u \<Rightarrow> u)"

definition the_ticketPattern :: "JiraLinkOptions \<Rightarrow> RegExp" where
  "the_ticketPattern options =
     (case ticketPattern options of None \<Rightarrow> default_ticketPattern | Some r \<Rightarrow> r)"

definition the_linkStyle :: "JiraLinkOptions \<Rightarrow> link_style" where
  "the_linkStyle options = (case linkStyle options of None \<Rightarrow> Inline | Some l \<Rightarrow> l)"

definition the_debug :: "JiraLinkOptions \<Rightarrow> bool" where
  "the_debug options = (case debug options of None \<Rightarrow> False | Some b \<Rightarrow> b)"

text \<open>
  The \<^verbatim>\<open>lastIndex\<close> of the rule when the loop starts: that of the object in the
  options, or 0 for the fresh object that the literal of the default makes.
\<close>

definition start_index :: "JiraLinkOptions \<Rightarrow> ('p, 'c) state \<Rightarrow> nat" where
  "start_index options st = (case ticketPattern options of None \<Rightarrow> 0 | Some r \<Rightarrow> lastIndex st)"

text \<open>
  \<^verbatim>\<open>addJiraLinksToCommits(commits, options)\<close>: the array it returns (the one it was
  given) or the error it raised, and the state it leaves.  The object made by the
  literal of the default is dropped at the end; the \<^verbatim>\<open>lastIndex\<close> of the state is then
  what it was.
\<close>

definition addJiraLinksToCommits ::
  "(js_string \<Rightarrow> js_string) \<Rightarrow> nat list \<Rightarrow> JiraLinkOptions \<Rightarrow> ('p, 'c) state
     \<Rightarrow> (js_error + nat list) \<times> ('p, 'c) state" where
  "addJiraLinksToCommits toUpperCase commits options st =
     (let st1 = st\<lparr>console :=
                    log_if (the_debug options)
                      (js ''Processing '' @ show_nat (length commits) @ js '' commits for Jira links'')
                      (console st),
                  lastIndex := start_index options st\<rparr>
      in case for_commits toUpperCase (the_jiraBaseUrl options) (the_ticketPattern options)
                (the_linkStyle options) (the_debug options) commits st1 of
           (e, st2) \<Rightarrow>
             (case e of None \<Rightarrow> Inr commits | Some x \<Rightarrow> Inl x,
              case ticketPattern options of
                None \<Rightarrow> st2\<lparr>lastIndex := lastIndex st\<rparr>
              | Some r \<Rightarrow> st2))"

subsection \<open>The plugin\<close>

text \<open>
  \<^verbatim>\<open>JiraLinkPlugin.processCommits(commits)\<close>, for a plugin whose \<^verbatim>\<open>jiraOptions\<close> are
  \<open>jiraOptions\<close>: in the \<^verbatim>\<open>catch\<close> it logs the error and returns \<^verbatim>\<open>commits\<close>, the array
  it was given.
\<close>

definition processCommits ::
  "(js_string \<Rightarrow> js_string) \<Rightarrow> JiraLinkOptions \<Rightarrow> nat list \<Rightarrow> ('p, 'c) state
     \<Rightarrow> nat list \<times> ('p, 'c) state" where
  "processCommits toUpperCase jiraOptions commits st =
     (let st1 = st\<lparr>logger := logger st @
                    [Info (js ''JiraLinkPlugin processing '' @ show_nat (length commits)
                           @ js '' commits'')]\<rparr>
      in case addJiraLinksToCommits toUpperCase commits jiraOptions st1 of
           (Inr result, st2) \<Rightarrow> (result, st2)
         | (Inl error, st2) \<Rightarrow> (commits, st2\<lparr>logger := logger st2 @ [Error error]\<rparr>))"

text \<open>What a caller holding the array sees: the commits behind its references.\<close>

definition view :: "nat list \<Rightarrow> ('p, 'c) state \<Rightarrow> ('p, 'c) ConventionalCommit_scheme list" where
  "view commits st = map (heap st) commits"

subsection \<open>What the loop does to the store\<close>

text \<open>
  Notions used by the proofs.  \<open>commit_after\<close> is what the loop body makes of one commit,
  without the console.  \<open>run\<close> applies such a step to the objects behind a list of
  references, threading the \<^verbatim>\<open>lastIndex\<close> and stopping at the first error; \<open>run_pure\<close>
  does so for a step that does not depend on \<^verbatim>\<open>lastIndex\<close>.  A step \<open>settles\<close> when a
  result of it is left as it is by a second application.  A rule is \<open>stateless\<close> when
  \<^verbatim>\<open>match\<close> does not read its \<^verbatim>\<open>lastIndex\<close>: it is global or not sticky.  \<open>links\<close> is a
  run of formatted links, one for each of the identifiers.
\<close>

definition commit_after ::
  "(js_string \<Rightarrow> js_string) \<Rightarrow> js_string \<Rightarrow> RegExp \<Rightarrow> link_style
     \<Rightarrow> ('p, 'c) ConventionalCommit_scheme \<Rightarrow> nat
     \<Rightarrow> (js_error + ('p, 'c) ConventionalCommit_scheme) \<times> nat" where
  "commit_after toUpperCase url rule style commit li =
     map_prod (map_sum id fst) id (loop_body toUpperCase url rule style False commit [] li)"

definition annotate_one ::
  "(js_string \<Rightarrow> js_string) \<Rightarrow> JiraLinkOptions \<Rightarrow> ('p, 'c) ConventionalCommit_scheme
     \<Rightarrow> js_error + ('p, 'c) ConventionalCommit_scheme" where
  "annotate_one toUpperCase options commit =
     fst (commit_after toUpperCase (the_jiraBaseUrl options) (the_ticketPattern options)
            (the_linkStyle options) commit 0)"

fun run ::
  "('a \<Rightarrow> nat \<Rightarrow> (js_error + 'a) \<times> nat) \<Rightarrow> nat list \<Rightarrow> (nat \<Rightarrow> 'a) \<Rightarrow> nat
     \<Rightarrow> js_error option \<times> (nat \<Rightarrow> 'a) \<times> nat" where
  "run f [] h li = (None, h, li)"
| "run f (a # as) h li =
     (case f (h a) li of
        (Inl e, li') \<Rightarrow> (Some e, h, li')
      | (Inr c, li') \<Rightarrow> run f as (h(a := c)) li')"

fun run_pure ::
  "('a \<Rightarrow> js_error + 'a) \<Rightarrow> nat list \<Rightarrow> (nat \<Rightarrow> 'a) \<Rightarrow> js_error option \<times> (nat \<Rightarrow> 'a)" where
  "run_pure g [] h = (None, h)"
| "run_pure g (a # as) h =
     (case g (h a) of Inl e \<Rightarrow> (Some e, h) | Inr c \<Rightarrow> run_pure g as (h(a := c)))"

definition settles :: "('a \<Rightarrow> js_error + 'a) \<Rightarrow> bool" where
  "settles g = (\<forall>c c'. g c = Inr c' \<longrightarrow> g c' = Inr c')"

definition outcome :: "nat list \<Rightarrow> js_error option \<Rightarrow> js_error + nat list" where
  "outcome commits e = (case e of None \<Rightarrow> Inr commits | Some x \<Rightarrow> Inl x)"

definition stateless :: "RegExp \<Rightarrow> bool" where
  "stateless R = (global R \<or> \<not> sticky R)"

text \<open>A rule \<open>never_raises\<close> when every match array it gives has an entry 1.\<close>

definition never_raises :: "RegExp \<Rightarrow> bool" where
  "never_raises R = (\<forall>S li m. fst (js_match R S li) = Some m \<longrightarrow> js_index m 1 \<noteq> None)"

definition links :: "js_string \<Rightarrow> link_style \<Rightarrow> js_string list \<Rightarrow> js_string" where
  "links url style ts = concat (map (\<lambda>t. formatJiraLink t url style) ts)"

text \<open>
  A commit \<open>grows\<close> into another when the two differ at most in that links have been
  appended to the \<^verbatim>\<open>message\<close> and to the \<^verbatim>\<open>bareMessage\<close>.
\<close>

definition grows ::
  "js_string \<Rightarrow> link_style \<Rightarrow> ('p, 'c) ConventionalCommit_scheme
     \<Rightarrow> ('p, 'c) ConventionalCommit_scheme \<Rightarrow> bool" where
  "grows url style c c' =
     (sha c' = sha c \<and> pullRequest c' = pullRequest c
      \<and> ConventionalCommit.more c' = ConventionalCommit.more c
      \<and> (\<exists>ts. message c' = message c @ links url style ts)
      \<and> (\<exists>ts. bareMessage c' = bareMessage c @ links url style ts))"

text \<open>
  Two upper-casing functions \<open>agree_on\<close> a commit when they agree on what the extraction
  finds in its branch name.
\<close>

definition agree_on ::
  "(js_string \<Rightarrow> js_string) \<Rightarrow> (js_string \<Rightarrow> js_string) \<Rightarrow> RegExp
     \<Rightarrow> ('p, 'c) ConventionalCommit_scheme \<Rightarrow> bool" where
  "agree_on up up' R c =
     (\<forall>b li g li'.
        Option.bind (pullRequest c) (\<lambda>pr. truthy_string (headBranchName pr)) = Some b
        \<and> extractJiraTicket id b R li = (Inr (Some g), li') \<longrightarrow> up g = up' g)"

subsection \<open>Example data\<close>

text \<open>
  A commit merged from the branch \<^verbatim>\<open>PLAYG-1008-test-feature\<close>, one from
  \<^verbatim>\<open>hotfix-login\<close>, one whose bare message already names its ticket, one whose pull
  request has the empty string for a branch name, and one pushed without a pull request.
\<close>

definition feature_commit :: "unit ConventionalCommit" where
  "feature_commit =
     \<lparr>sha = js ''3f2a9c1e7b'', message = js ''feat: add feature'',
      bareMessage = js ''feat: add feature'',
      pullRequest = Some \<lparr>headBranchName = Some (js ''PLAYG-1008-test-feature'')\<rparr>\<rparr>"

definition hotfix_commit :: "unit ConventionalCommit" where
  "hotfix_commit =
     \<lparr>sha = js ''77d0b4a2c9'', message = js ''fix: login'', bareMessage = js ''fix: login'',
      pullRequest = Some \<lparr>headBranchName = Some (js ''hotfix-login'')\<rparr>\<rparr>"

definition export_commit :: "unit ConventionalCommit" where
  "export_commit =
     \<lparr>sha = js ''a41d07e93c'', message = js ''feat: add export'',
      bareMessage = js ''feat: add export (QUIKS-674)'',
      pullRequest = Some \<lparr>headBranchName = Some (js ''QUIKS-674-UI-analytics-basic-tests'')\<rparr>\<rparr>"

definition unnamed_branch_commit :: "unit ConventionalCommit" where
  "unnamed_branch_commit =
     \<lparr>sha = js ''9b8c7d6e5f'', message = js ''docs: readme'', bareMessage = js ''docs: readme'',
      pullRequest = Some \<lparr>headBranchName = Some []\<rparr>\<rparr>"

definition direct_commit :: "unit ConventionalCommit" where
  "direct_commit =
     \<lparr>sha = js ''0c4e5d6f1a'', message = js ''chore: tidy'', bareMessage = js ''chore: tidy'',
      pullRequest = None\<rparr>"

definition example_state :: "(unit, unit) state" where
  "example_state =
     \<lparr>heap = (\<lambda>_. direct_commit)
               (0 := feature_commit, 1 := hotfix_commit, 2 := export_commit,
                3 := unnamed_branch_commit),
      console = [], logger = [], lastIndex = 0\<rparr>"

text \<open>Three commits, merged from the branches \<^verbatim>\<open>AB-1\<close>, \<^verbatim>\<open>CD-2\<close> and \<^verbatim>\<open>EF-3\<close>.\<close>

definition branch_commit :: "string \<Rightarrow> string \<Rightarrow> unit ConventionalCommit" where
  "branch_commit text branch =
     \<lparr>sha = js ''5e1f00d2aa'', message = js text, bareMessage = js text,
      pullRequest = Some \<lparr>headBranchName = Some (js branch)\<rparr>\<rparr>"

definition three_branches :: "(unit, unit) state" where
  "three_branches =
     \<lparr>heap = (\<lambda>_. direct_commit)
               (0 := branch_commit ''fix: a'' ''AB-1'', 1 := branch_commit ''fix: b'' ''CD-2'',
                2 := branch_commit ''fix: c'' ''EF-3''),
      console = [], logger = [], lastIndex = 0\<rparr>"

text \<open>
  One commit, merged from a branch whose name runs two identifiers together:
  \<^verbatim>\<open>AB-1CD-2\<close>.
\<close>

definition adjacent_tickets :: "(unit, unit) state" where
  "adjacent_tickets =
     \<lparr>heap = (\<lambda>_. direct_commit)(0 := branch_commit ''fix: a'' ''AB-1CD-2''),
      console = [], logger = [], lastIndex = 0\<rparr>"

definition no_options :: JiraLinkOptions where
  "no_options = \<lparr>jiraBaseUrl = None, ticketPattern = None, linkStyle = None, debug = None\<rparr>"

text \<open>\<^verbatim>\<open>/([A-Z]{2,10}-\d+)|hotfix/i\<close>: one group, which the second alternative leaves out.\<close>

definition ticket_or_hotfix :: RegExp where
  "ticket_or_hotfix =
     literal (Alt ticket_shape
       (Seq (chr CHR ''h'') (Seq (chr CHR ''o'') (Seq (chr CHR ''t'')
         (Seq (chr CHR ''f'') (Seq (chr CHR ''i'') (chr CHR ''x''))))))) ''i''"

text \<open>\<^verbatim>\<open>/[A-Z]+-\d+/\<close>: the shape of a ticket, written without a group.\<close>

definition ungrouped_ticket :: RegExp where
  "ungrouped_ticket =
     literal (Seq (Repeat 1 None upper_letters) (Seq (chr CHR ''-'') (Repeat 1 None digits))) []"

text \<open>\<^verbatim>\<open>/([A-Z]{2,10}-\d+)/gi\<close>: the default pattern with the global flag.\<close>

definition global_ticket :: RegExp where
  "global_ticket = literal ticket_shape ''gi''"

text \<open>\<^verbatim>\<open>/([A-Z]{2,10}-\d+)/iy\<close>: the default pattern with the sticky flag.\<close>

definition sticky_ticket :: RegExp where
  "sticky_ticket = literal ticket_shape ''iy''"

text \<open>\<^verbatim>\<open>new RegExp('')\<close>: matches the empty string at the start of every string.\<close>

definition empty_rule :: RegExp where
  "empty_rule = literal Empty []"

section \<open>Properties\<close>

subsection \<open>Rules and their state\<close>

lemma js_match_stateless:
  "stateless R \<Longrightarrow> fst (js_match R S li) = fst (js_match R S 0)"
  by (auto simp: stateless_def js_match_def RegExpBuiltinExec_def Let_def
      split: option.splits prod.splits)

lemma js_match_untracked:
  "\<not> global R \<Longrightarrow> \<not> sticky R \<Longrightarrow> js_match R S li = (fst (js_match R S 0), li)"
  by (auto simp: js_match_def RegExpBuiltinExec_def Let_def split: option.splits prod.splits)

lemma js_match_global: "global R \<Longrightarrow> js_match R S li = js_match R S 0"
  by (simp add: js_match_def)

lemma extract_stateless:
  "stateless R \<Longrightarrow> fst (extractJiraTicket up b R li) = fst (extractJiraTicket up b R 0)"
  using js_match_stateless [of R b li]
  by (cases "js_match R b li"; cases "js_match R b 0")
     (auto simp: extractJiraTicket_def split: option.splits)

lemma extract_untracked:
  "\<not> global R \<Longrightarrow> \<not> sticky R
     \<Longrightarrow> extractJiraTicket up b R li = (fst (extractJiraTicket up b R 0), li)"
  using js_match_untracked [of R b li] js_match_untracked [of R b 0]
  by (cases "fst (js_match R b 0)") (auto simp: extractJiraTicket_def split: option.splits)

lemma extract_global: "global R \<Longrightarrow> extractJiraTicket up b R li = extractJiraTicket up b R 0"
  using js_match_global [of R b li] by (simp add: extractJiraTicket_def)

text \<open>The upper-casing is applied to what the extraction finds, and to nothing else.\<close>

lemma extract_up:
  "extractJiraTicket up b R li
     = map_prod (map_sum id (map_option up)) id (extractJiraTicket id b R li)"
  by (auto simp: extractJiraTicket_def split: option.splits prod.splits)

lemma matcher_Group:
  "pattern_matcher ic (Group p) S i = Some (n, caps) \<Longrightarrow> \<exists>g cs. caps = Some g # cs"
  by (cases "matches ic p (drop i S)") (auto simp: pattern_matcher_def split: list.splits)

lemma scan_Some: "scan R S i = Some (j, n, caps) \<Longrightarrow> matcher R S j = Some (n, caps)"
proof (induction R S i rule: scan.induct)
  case (1 R S i)
  show ?case
  proof (cases "length S < i")
    case True
    with "1.prems" show ?thesis by (simp add: scan.simps)
  next
    case False
    show ?thesis
    proof (cases "matcher R S i")
      case (Some r)
      with False "1.prems" scan.simps [of R S i] show ?thesis by (auto split: prod.splits)
    next
      case None
      show ?thesis
      proof (cases "sticky R")
        case True
        with None False "1.prems" scan.simps [of R S i] show ?thesis by simp
      next
        case st: False
        with None False "1.prems" scan.simps [of R S i]
        have "scan R S (AdvanceStringIndex S i (unicode R)) = Some (j, n, caps)" by simp
        from "1.IH" [OF False None st this] show ?thesis .
      qed
    qed
  qed
qed

lemma exec_Group:
  assumes "\<forall>S i n caps. matcher R S i = Some (n, caps) \<longrightarrow> (\<exists>g cs. caps = Some g # cs)"
    and "RegExpBuiltinExec R S li = (Some m, li')"
  shows "\<exists>g. js_index m 1 = Some g"
proof -
  from assms(2) obtain j n caps
    where s: "scan R S (if global R \<or> sticky R then li else 0) = Some (j, n, caps)"
      and m: "m = Some (take n (drop j S)) # caps"
    by (auto simp: RegExpBuiltinExec_def Let_def split: option.splits)
  from scan_Some [OF s] assms(1) obtain g cs where "caps = Some g # cs" by blast
  with m show ?thesis by (simp add: js_index_def)
qed

lemma never_raises_Group:
  assumes "\<not> global R"
    and "\<forall>S i n caps. matcher R S i = Some (n, caps) \<longrightarrow> (\<exists>g cs. caps = Some g # cs)"
  shows "never_raises R"
  unfolding never_raises_def
proof (intro allI impI)
  fix S li m
  assume "fst (js_match R S li) = Some m"
  with assms(1) have "RegExpBuiltinExec R S li = (Some m, snd (RegExpBuiltinExec R S li))"
    by (simp add: js_match_def prod_eq_iff)
  from exec_Group [OF assms(2) this] show "js_index m 1 \<noteq> None" by auto
qed

lemma never_raises_default: "never_raises default_ticketPattern"
proof (rule never_raises_Group)
  show "\<not> global default_ticketPattern"
    by (simp add: default_ticketPattern_def literal_def)
next
  show "\<forall>S i n caps. matcher default_ticketPattern S i = Some (n, caps)
          \<longrightarrow> (\<exists>g cs. caps = Some g # cs)"
    unfolding default_ticketPattern_def ticket_shape_def literal_def
    by (auto dest: matcher_Group)
qed

lemma extract_never_raises:
  "never_raises R \<Longrightarrow> \<exists>t. fst (extractJiraTicket up b R li) = Inr t"
proof (cases "js_match R b li")
  case (Pair res li')
  assume nr: "never_raises R"
  show ?thesis
  proof (cases res)
    case None
    with Pair show ?thesis by (simp add: extractJiraTicket_def)
  next
    case (Some m)
    with Pair nr have "js_index m 1 \<noteq> None"
      unfolding never_raises_def by (metis fst_conv)
    with Pair Some show ?thesis by (auto simp: extractJiraTicket_def)
  qed
qed

lemma stateless_default: "stateless default_ticketPattern"
  by (simp add: stateless_def default_ticketPattern_def literal_def)

subsection \<open>Links in messages\<close>

lemma includes_link: "str_includes (m @ formatJiraLink t u l) t"
proof -
  have "\<exists>ps ss. m @ formatJiraLink t u l = ps @ t @ ss"
  proof (cases "l = Newline")
    case True
    then have "m @ formatJiraLink t u l
        = (m @ js ''\<newline>  ['') @ t @ (js '']('' @ generateJiraLink t u @ js '')'')"
      by (simp add: formatJiraLink_def)
    then show ?thesis by blast
  next
    case False
    then have "m @ formatJiraLink t u l
        = (m @ js '' (['') @ t @ (js '']('' @ generateJiraLink t u @ js ''))'')"
      by (simp add: formatJiraLink_def)
    then show ?thesis by blast
  qed
  then show ?thesis
    by (simp add: str_includes_def sublist_def)
qed

lemma includes_append: "str_includes m t \<Longrightarrow> str_includes (m @ x) t"
  by (auto simp: str_includes_def sublist_def) (metis append.assoc)

subsection \<open>The loop body on one commit\<close>

lemma loop_body_commit:
  "map_prod (map_sum id fst) id (loop_body up url rule style dbg commit out li)
     = commit_after up url rule style commit li"
  by (simp add: loop_body_def commit_after_def Let_def
      split: option.splits sum.splits prod.splits)

lemma commit_after_stateless:
  assumes "stateless R"
  shows "fst (commit_after up url R style c li) = fst (commit_after up url R style c 0)"
proof (cases "Option.bind (pullRequest c) (\<lambda>pr. truthy_string (headBranchName pr))")
  case None
  then show ?thesis by (simp add: commit_after_def loop_body_def)
next
  case (Some b)
  from extract_stateless [OF assms, of up b li]
  show ?thesis
    by (cases "extractJiraTicket up b R li"; cases "extractJiraTicket up b R 0")
       (auto simp: commit_after_def loop_body_def Some Let_def
          split: option.splits sum.splits)
qed

lemma commit_after_idem:
  assumes "fst (commit_after up url rule style c li) = Inr c'"
  shows "fst (commit_after up url rule style c' li) = Inr c'"
  using assms
  by (auto simp: loop_body_def commit_after_def Let_def includes_link includes_append
      split: option.splits sum.splits if_splits prod.splits)

lemma commit_after_others:
  assumes "fst (commit_after up url rule style c li) = Inr c'"
  shows "sha c' = sha c \<and> pullRequest c' = pullRequest c
       \<and> ConventionalCommit.more c' = ConventionalCommit.more c"
  using assms
  by (auto simp: loop_body_def commit_after_def Let_def
      split: option.splits sum.splits if_splits prod.splits)

lemma commit_after_messages:
  assumes "fst (commit_after up url rule style c li) = Inr c'"
  shows "(message c' = message c \<or> (\<exists>t. message c' = message c @ formatJiraLink t url style))
       \<and> (bareMessage c' = bareMessage c
            \<or> (\<exists>t. bareMessage c' = bareMessage c @ formatJiraLink t url style))"
  using assms
  by (auto simp: loop_body_def commit_after_def Let_def
      split: option.splits sum.splits if_splits prod.splits)

lemma commit_after_skip:
  assumes "Option.bind (pullRequest c) (\<lambda>pr. truthy_string (headBranchName pr)) = None"
  shows "commit_after up url rule style c li = (Inr c, li)"
  using assms by (simp add: loop_body_def commit_after_def)

lemma commit_after_never_raises:
  assumes "never_raises R"
  shows "\<exists>c'. fst (commit_after up url R style c li) = Inr c'"
proof (cases "Option.bind (pullRequest c) (\<lambda>pr. truthy_string (headBranchName pr))")
  case None
  then show ?thesis by (simp add: commit_after_def loop_body_def)
next
  case (Some b)
  from extract_never_raises [OF assms, of up b li]
  obtain t where "fst (extractJiraTicket up b R li) = Inr t" by blast
  then show ?thesis
    by (cases "extractJiraTicket up b R li")
       (auto simp: commit_after_def loop_body_def Some Let_def split: option.splits)
qed

lemma loop_body_message_only:
  assumes "pullRequest c = Some pr" and "headBranchName pr = Some branchName"
    and "branchName \<noteq> []"
    and "fst (extractJiraTicket up branchName rule li) = Inr (Some ticketId)"
    and "str_includes (bareMessage c) ticketId" and "\<not> str_includes (message c) ticketId"
  shows "loop_body up url rule style dbg c out li
           = (Inr (c\<lparr>message := message c @ formatJiraLink ticketId url style\<rparr>,
                   log_if dbg (js ''Added Jira link to commit message'')
                     (log_if dbg
                        (js ''Found Jira ticket '' @ ticketId @ js '' in branch: '' @ branchName)
                        out)),
              snd (extractJiraTicket up branchName rule li))"
proof -
  from assms(6) have "ticketId \<noteq> []" by (auto simp: str_includes_def)
  with assms show ?thesis
    by (cases "extractJiraTicket up branchName rule li")
       (simp add: loop_body_def truthy_string_def Let_def)
qed

lemma loop_body_quiet:
  "loop_body up url rule style False c out li = (Inr (c', out'), li') \<Longrightarrow> out' = out"
  by (auto simp: loop_body_def log_if_def Let_def
      split: option.splits sum.splits if_splits prod.splits)

subsection \<open>The loop on the store\<close>

lemma run_outside: "run f as h li = (e, h', li') \<Longrightarrow> a \<notin> set as \<Longrightarrow> h' a = h a"
  by (induction as arbitrary: h li) (auto split: sum.splits prod.splits)

text \<open>A property of commits that is kept by every step is kept by the loop.\<close>

lemma run_invariant:
  assumes step: "\<And>c li c' li'. f c li = (Inr c', li') \<Longrightarrow> P c c'"
    and refl: "\<And>c. P c c"
    and trans: "\<And>c c' c''. P c c' \<Longrightarrow> P c' c'' \<Longrightarrow> P c c''"
  shows "run f as h li = (e, h', li') \<Longrightarrow> P (h a) (h' a)"
proof (induction as arbitrary: h li)
  case Nil
  then show ?case by (simp add: refl)
next
  case (Cons b as)
  obtain r li1 where f: "f (h b) li = (r, li1)" by (cases "f (h b) li")
  show ?case
  proof (cases r)
    case (Inl x)
    with f Cons.prems show ?thesis by (simp add: refl)
  next
    case (Inr c)
    with f Cons.prems have r: "run f as (h(b := c)) li1 = (e, h', li')" by simp
    from Cons.IH [OF r] have ih: "P ((h(b := c)) a) (h' a)" .
    from f Inr step have "P (h b) c" by blast
    with ih show ?thesis
      by (cases "a = b") (auto intro: trans)
  qed
qed

text \<open>A commit that every step leaves as it is, is left as it is by the loop.\<close>

lemma run_skip:
  assumes "\<And>li. \<exists>li'. f c li = (Inr c, li')"
  shows "run f as h li = (e, h', li') \<Longrightarrow> h a = c \<Longrightarrow> h' a = c"
proof (induction as arbitrary: h li)
  case Nil
  then show ?case by simp
next
  case (Cons b as)
  obtain r li1 where f: "f (h b) li = (r, li1)" by (cases "f (h b) li")
  show ?case
  proof (cases r)
    case (Inl x)
    with f Cons.prems show ?thesis by simp
  next
    case (Inr c1)
    with f Cons.prems have r: "run f as (h(b := c1)) li1 = (e, h', li')" by simp
    have "(h(b := c1)) a = c"
    proof (cases "a = b")
      case True
      with Cons.prems(2) assms [of li] f Inr show ?thesis by auto
    next
      case False
      with Cons.prems(2) show ?thesis by simp
    qed
    from Cons.IH [OF r this] show ?thesis .
  qed
qed

lemma run_no_error:
  assumes "\<And>c li. \<exists>c'. fst (f c li) = Inr c'"
  shows "fst (run f as h li) = None"
proof (induction as arbitrary: h li)
  case Nil
  show ?case by simp
next
  case (Cons b as)
  from assms [of "h b" li] obtain c' where "fst (f (h b) li) = Inr c'" by blast
  then obtain li1 where "f (h b) li = (Inr c', li1)" by (cases "f (h b) li") simp
  with Cons.IH [of "h(b := c')" li1] show ?case by (simp add: fun_upd_def)
qed

lemma run_all_skip:
  assumes "\<And>a li. a \<in> set as \<Longrightarrow> f (h a) li = (Inr (h a), li)"
  shows "run f as h li = (None, h, li)"
  using assms by (induction as) simp_all

text \<open>When the step does not read \<open>li\<close>, the loop is the loop of the pure step.\<close>

lemma run_pure:
  assumes "\<And>c li. fst (f c li) = g c"
  shows "(fst (run f as h li), fst (snd (run f as h li))) = run_pure g as h"
proof (induction as arbitrary: h li)
  case Nil
  show ?case by simp
next
  case (Cons b as)
  obtain r li1 where f: "f (h b) li = (r, li1)" by (cases "f (h b) li")
  with assms [of "h b" li] have g: "g (h b) = r" by simp
  show ?case
  proof (cases r)
    case (Inl x)
    with f g show ?thesis by simp
  next
    case (Inr c)
    with f g Cons.IH [of "h(b := c)" li1] show ?thesis by (simp add: fun_upd_def)
  qed
qed

lemma run_pure_outside: "run_pure g as h = (e, h') \<Longrightarrow> a \<notin> set as \<Longrightarrow> h' a = h a"
  by (induction as arbitrary: h) (auto split: sum.splits)

lemma run_pure_rel:
  "settles g \<Longrightarrow> run_pure g as h = (e, h') \<Longrightarrow> h' a = h a \<or> g (h a) = Inr (h' a)"
proof (induction as arbitrary: h)
  case Nil
  then show ?case by simp
next
  case (Cons b as)
  show ?case
  proof (cases "g (h b)")
    case (Inl x)
    with Cons.prems show ?thesis by simp
  next
    case (Inr c)
    with Cons.prems have r: "run_pure g as (h(b := c)) = (e, h')" by simp
    from Cons.IH [OF Cons.prems(1) r]
    have "h' a = (h(b := c)) a \<or> g ((h(b := c)) a) = Inr (h' a)" .
    with Inr Cons.prems(1) show ?thesis
      by (cases "a = b") (auto simp: settles_def)
  qed
qed

lemma run_pure_done:
  "settles g \<Longrightarrow> run_pure g as h = (None, h') \<Longrightarrow> a \<in> set as \<Longrightarrow> g (h a) = Inr (h' a)"
proof (induction as arbitrary: h)
  case Nil
  then show ?case by simp
next
  case (Cons b as)
  show ?case
  proof (cases "g (h b)")
    case (Inl x)
    with Cons.prems show ?thesis by simp
  next
    case (Inr c)
    with Cons.prems have r: "run_pure g as (h(b := c)) = (None, h')" by simp
    show ?thesis
    proof (cases "a \<in> set as")
      case True
      from Cons.IH [OF Cons.prems(1) r True]
      have "g ((h(b := c)) a) = Inr (h' a)" .
      with Inr Cons.prems(1) show ?thesis
        by (cases "a = b") (auto simp: settles_def)
    next
      case False
      with Cons.prems(3) have ab: "a = b" by simp
      from run_pure_rel [OF Cons.prems(1) r, of b]
      have "h' b = c \<or> g c = Inr (h' b)" by simp
      with Inr Cons.prems(1) ab show ?thesis
        by (auto simp: settles_def)
    qed
  qed
qed

lemma run_pure_idem:
  "settles g \<Longrightarrow> run_pure g as h = (e, h') \<Longrightarrow> run_pure g as h' = (e, h')"
proof (induction as arbitrary: h)
  case Nil
  then show ?case by simp
next
  case (Cons b as)
  show ?case
  proof (cases "g (h b)")
    case (Inl x)
    with Cons.prems show ?thesis by auto
  next
    case (Inr c)
    with Cons.prems have r: "run_pure g as (h(b := c)) = (e, h')" by simp
    from run_pure_rel [OF Cons.prems(1) r, of b]
    have "h' b = c \<or> g c = Inr (h' b)" by simp
    with Inr Cons.prems(1) have fp: "g (h' b) = Inr (h' b)"
      by (auto simp: settles_def)
    from Cons.IH [OF Cons.prems(1) r] fp show ?thesis by simp
  qed
qed

subsection \<open>The pass and the loop\<close>

lemma for_commits_run:
  "(fst (for_commits up url rule style dbg as st),
    heap (snd (for_commits up url rule style dbg as st)),
    lastIndex (snd (for_commits up url rule style dbg as st)))
     = run (commit_after up url rule style) as (heap st) (lastIndex st)"
proof (induction as arbitrary: st)
  case Nil
  show ?case by simp
next
  case (Cons a as)
  obtain r li1 where lb: "loop_body up url rule style dbg (heap st a) (console st) (lastIndex st)
      = (r, li1)"
    by (cases "loop_body up url rule style dbg (heap st a) (console st) (lastIndex st)")
  with loop_body_commit [of up url rule style dbg "heap st a" "console st" "lastIndex st"]
  have ca: "commit_after up url rule style (heap st a) (lastIndex st) = (map_sum id fst r, li1)"
    by simp
  show ?case
  proof (cases r)
    case (Inl e)
    with lb ca show ?thesis by simp
  next
    case (Inr p)
    with lb ca
      Cons.IH [of "st\<lparr>heap := (heap st)(a := fst p), console := snd p, lastIndex := li1\<rparr>"]
    show ?thesis by (simp add: case_prod_beta fun_upd_def)
  qed
qed

lemma for_commits_quiet:
  "console (snd (for_commits up url rule style False as st)) = console st"
proof (induction as arbitrary: st)
  case Nil
  show ?case by simp
next
  case (Cons a as)
  obtain r li1 where lb: "loop_body up url rule style False (heap st a) (console st) (lastIndex st)
      = (r, li1)"
    by (cases "loop_body up url rule style False (heap st a) (console st) (lastIndex st)")
  show ?case
  proof (cases r)
    case (Inl e)
    with lb show ?thesis by simp
  next
    case (Inr p)
    obtain c' out' where p: "p = (c', out')" by (cases p)
    with Inr lb loop_body_quiet have "out' = console st" by blast
    with Inr p lb
      Cons.IH [of "st\<lparr>heap := (heap st)(a := c'), console := console st, lastIndex := li1\<rparr>"]
    show ?thesis by simp
  qed
qed

text \<open>
  The outcome of a pass and the store it leaves are those of the loop \<open>run\<close>, started
  with the \<^verbatim>\<open>lastIndex\<close> of the rule.
\<close>

lemma addJiraLinksToCommits_run:
  "(fst (addJiraLinksToCommits up commits options st),
    heap (snd (addJiraLinksToCommits up commits options st)))
     = (outcome commits
          (fst (run (commit_after up (the_jiraBaseUrl options) (the_ticketPattern options)
                       (the_linkStyle options)) commits (heap st) (start_index options st))),
        fst (snd (run (commit_after up (the_jiraBaseUrl options) (the_ticketPattern options)
                       (the_linkStyle options)) commits (heap st) (start_index options st))))"
proof -
  let ?st1 = "st\<lparr>console :=
                    log_if (the_debug options)
                      (js ''Processing '' @ show_nat (length commits) @ js '' commits for Jira links'')
                      (console st),
                  lastIndex := start_index options st\<rparr>"
  let ?loop = "for_commits up (the_jiraBaseUrl options) (the_ticketPattern options)
                (the_linkStyle options) (the_debug options) commits ?st1"
  obtain e st2 where loop: "?loop = (e, st2)" by (cases ?loop)
  with for_commits_run [of up "the_jiraBaseUrl options" "the_ticketPattern options"
        "the_linkStyle options" "the_debug options" commits ?st1]
  have "run (commit_after up (the_jiraBaseUrl options) (the_ticketPattern options)
              (the_linkStyle options)) commits (heap st) (start_index options st)
          = (e, heap st2, lastIndex st2)"
    by simp
  with loop show ?thesis
    by (cases e; cases "ticketPattern options")
       (simp_all add: addJiraLinksToCommits_def outcome_def)
qed

lemma addJiraLinksToCommits_runD:
  assumes "addJiraLinksToCommits up commits options st = (r, st')"
  obtains e li' where
    "run (commit_after up (the_jiraBaseUrl options) (the_ticketPattern options)
            (the_linkStyle options)) commits (heap st) (start_index options st)
       = (e, heap st', li')"
    and "r = outcome commits e"
proof -
  let ?run = "run (commit_after up (the_jiraBaseUrl options) (the_ticketPattern options)
            (the_linkStyle options)) commits (heap st) (start_index options st)"
  from addJiraLinksToCommits_run [of up commits options st] assms
  have "r = outcome commits (fst ?run)" and "heap st' = fst (snd ?run)" by simp_all
  then have "?run = (fst ?run, heap st', snd (snd ?run))" by (simp add: prod_eq_iff)
  from that [OF this \<open>r = outcome commits (fst ?run)\<close>] show thesis .
qed

text \<open>With a stateless rule the pass is the loop of the pure step \<open>annotate_one\<close>.\<close>

lemma addJiraLinksToCommits_pureD:
  assumes "stateless (the_ticketPattern options)"
    and "addJiraLinksToCommits up commits options st = (r, st')"
  obtains e where "run_pure (annotate_one up options) commits (heap st) = (e, heap st')"
    and "r = outcome commits e"
proof -
  from assms(2) obtain e li' where
    run: "run (commit_after up (the_jiraBaseUrl options) (the_ticketPattern options)
            (the_linkStyle options)) commits (heap st) (start_index options st)
       = (e, heap st', li')"
    and r: "r = outcome commits e" by (rule addJiraLinksToCommits_runD)
  have "fst (commit_after up (the_jiraBaseUrl options) (the_ticketPattern options)
            (the_linkStyle options) c li) = annotate_one up options c" for c li
    unfolding annotate_one_def by (rule commit_after_stateless [OF assms(1)])
  from run_pure [of "commit_after up (the_jiraBaseUrl options) (the_ticketPattern options)
            (the_linkStyle options)" "annotate_one up options", OF this,
            of commits "heap st" "start_index options st"] run
  have "run_pure (annotate_one up options) commits (heap st) = (e, heap st')" by simp
  from that [OF this r] show thesis .
qed

lemma settles_annotate_one: "settles (annotate_one up options)"
  unfolding settles_def annotate_one_def using commit_after_idem by blast

lemma addJiraLinksToCommits_quiet:
  assumes "the_debug options = False"
  shows "console (snd (addJiraLinksToCommits up commits options st)) = console st"
proof -
  let ?st1 = "st\<lparr>console := console st, lastIndex := start_index options st\<rparr>"
  let ?loop = "for_commits up (the_jiraBaseUrl options) (the_ticketPattern options)
                (the_linkStyle options) False commits ?st1"
  obtain e st2 where loop: "?loop = (e, st2)" by (cases ?loop)
  with for_commits_quiet [of up "the_jiraBaseUrl options" "the_ticketPattern options"
        "the_linkStyle options" commits ?st1]
  have "console st2 = console st" by simp
  with loop assms show ?thesis
    by (cases e; cases "ticketPattern options")
       (simp_all add: addJiraLinksToCommits_def log_if_def)
qed

subsection \<open>The upper-casing\<close>

lemma ascii_faithful_ascii: "ascii_faithful ascii_toUpperCase"
  by (simp add: ascii_faithful_def)

lemma extract_ascii:
  assumes "ascii_faithful up"
    and "extractJiraTicket id b R li = (r, li')"
    and "case r of Inr (Some g) \<Rightarrow> list_all (\<lambda>c. c < 128) g | _ \<Rightarrow> True"
  shows "extractJiraTicket up b R li = extractJiraTicket ascii_toUpperCase b R li"
proof -
  have "map_sum id (map_option up) r = map_sum id (map_option ascii_toUpperCase) r"
    using assms(1,3) by (auto simp: ascii_faithful_def split: sum.splits option.splits)
  with assms(2) show ?thesis
    by (simp add: extract_up [of up] extract_up [of ascii_toUpperCase])
qed

text \<open>
  Two upper-casing functions that agree on what the extraction finds in the branch name
  of a commit give the same loop body on that commit.
\<close>

lemma loop_body_cong_up:
  assumes "agree_on up up' R c"
  shows "loop_body up url R style dbg c out li = loop_body up' url R style dbg c out li"
proof (cases "Option.bind (pullRequest c) (\<lambda>pr. truthy_string (headBranchName pr))")
  case None
  then show ?thesis by (simp add: loop_body_def)
next
  case (Some b)
  obtain r li' where e: "extractJiraTicket id b R li = (r, li')"
    by (cases "extractJiraTicket id b R li")
  have "map_sum id (map_option up) r = map_sum id (map_option up') r"
  proof (cases r)
    case (Inl x)
    then show ?thesis by simp
  next
    case (Inr t)
    show ?thesis
    proof (cases t)
      case None
      with Inr show ?thesis by simp
    next
      case (Some g)
      with Inr e \<open>Option.bind (pullRequest c) (\<lambda>pr. truthy_string (headBranchName pr)) = Some b\<close>
        assms
      have "up g = up' g" unfolding agree_on_def by blast
      with Inr Some show ?thesis by simp
    qed
  qed
  with e have "extractJiraTicket up b R li = extractJiraTicket up' b R li"
    by (simp add: extract_up [of up] extract_up [of up'])
  with Some show ?thesis by (simp add: loop_body_def)
qed

lemma loop_body_pullRequest:
  "loop_body up url R style dbg c out li = (Inr (c', out'), li')
     \<Longrightarrow> pullRequest c' = pullRequest c"
  by (auto simp: loop_body_def Let_def split: option.splits sum.splits if_splits prod.splits)

lemma for_commits_cong_up:
  assumes "\<And>a. a \<in> set as \<Longrightarrow> agree_on up up' R (heap st a)"
  shows "for_commits up url R style dbg as st = for_commits up' url R style dbg as st"
  using assms
proof (induction as arbitrary: st)
  case Nil
  show ?case by simp
next
  case (Cons a as)
  have lb: "loop_body up url R style dbg (heap st a) (console st) (lastIndex st)
      = loop_body up' url R style dbg (heap st a) (console st) (lastIndex st)"
    by (rule loop_body_cong_up) (simp add: Cons.prems)
  obtain r li1 where r: "loop_body up' url R style dbg (heap st a) (console st) (lastIndex st)
      = (r, li1)"
    by (cases "loop_body up' url R style dbg (heap st a) (console st) (lastIndex st)")
  show ?case
  proof (cases r)
    case (Inl e)
    with lb r show ?thesis by simp
  next
    case (Inr p)
    obtain c' out' where p: "p = (c', out')" by (cases p)
    let ?st1 = "st\<lparr>heap := (heap st)(a := c'), console := out', lastIndex := li1\<rparr>"
    from r Inr p have pr: "pullRequest c' = pullRequest (heap st a)"
      by (auto dest: loop_body_pullRequest)
    have "agree_on up up' R (heap ?st1 x)" if "x \<in> set as" for x
    proof (cases "x = a")
      case True
      from Cons.prems [of a] have "agree_on up up' R (heap st a)" by simp
      with True pr show ?thesis by (simp add: agree_on_def)
    next
      case False
      with Cons.prems [of x] that show ?thesis by simp
    qed
    from Cons.IH [of ?st1, OF this] lb r Inr p show ?thesis by simp
  qed
qed

lemma addJiraLinksToCommits_cong_up:
  assumes "\<And>a. a \<in> set commits \<Longrightarrow> agree_on up up' (the_ticketPattern options) (heap st a)"
  shows "addJiraLinksToCommits up commits options st = addJiraLinksToCommits up' commits options st"
  unfolding addJiraLinksToCommits_def Let_def
  by (subst for_commits_cong_up [of commits up up']) (simp_all add: assms)

lemma processCommits_cong_up:
  assumes "\<And>a. a \<in> set commits \<Longrightarrow> agree_on up up' (the_ticketPattern options) (heap st a)"
  shows "processCommits up options commits st = processCommits up' options commits st"
  unfolding processCommits_def Let_def
  by (subst addJiraLinksToCommits_cong_up [of commits up up']) (simp_all add: assms)

text \<open>
  For a rule that is neither global nor sticky and a commit with a branch name, agreement
  is decided by one extraction.
\<close>

lemma agree_on_untracked:
  assumes "ascii_faithful up" and "\<not> global R" and "\<not> sticky R"
    and "Option.bind (pullRequest c) (\<lambda>pr. truthy_string (headBranchName pr)) = v"
    and "case v of None \<Rightarrow> True
         | Some b \<Rightarrow> (case fst (extractJiraTicket id b R 0) of
                        Inr (Some g) \<Rightarrow> list_all (\<lambda>c. c < 128) g
                      | _ \<Rightarrow> True)"
  shows "agree_on up ascii_toUpperCase R c"
  unfolding agree_on_def
proof (intro allI impI, elim conjE)
  fix b li g li'
  assume b: "Option.bind (pullRequest c) (\<lambda>pr. truthy_string (headBranchName pr)) = Some b"
    and e: "extractJiraTicket id b R li = (Inr (Some g), li')"
  from extract_untracked [OF assms(2,3), of id b li] e
  have "fst (extractJiraTicket id b R 0) = Inr (Some g)" by simp
  with assms(4,5) b have "list_all (\<lambda>c. c < 128) g" by auto
  with assms(1) show "up g = ascii_toUpperCase g" by (simp add: ascii_faithful_def)
qed

lemma extract_untracked_eval:
  assumes "ascii_faithful up" and "\<not> global R" and "\<not> sticky R"
    and "extractJiraTicket id b R 0 = (r0, l0)"
    and "case r0 of Inr (Some g) \<Rightarrow> list_all (\<lambda>c. c < 128) g | _ \<Rightarrow> True"
    and "fst (extractJiraTicket ascii_toUpperCase b R 0) = r"
  shows "extractJiraTicket up b R li = (r, li)"
  using extract_ascii [OF assms(1,4,5)] extract_untracked [OF assms(2,3), of up b li] assms(6)
  by simp

lemma extract_global_eval:
  assumes "ascii_faithful up" and "global R"
    and "extractJiraTicket id b R 0 = (r0, l0)"
    and "case r0 of Inr (Some g) \<Rightarrow> list_all (\<lambda>c. c < 128) g | _ \<Rightarrow> True"
    and "extractJiraTicket ascii_toUpperCase b R 0 = res"
  shows "extractJiraTicket up b R li = res"
  using extract_ascii [OF assms(1,3,4)] extract_global [OF assms(2), of up b li] assms(5)
  by simp

lemma untracked_default: "\<not> global default_ticketPattern" "\<not> sticky default_ticketPattern"
  by (simp_all add: default_ticketPattern_def literal_def)

lemma untracked_ticket_or_hotfix: "\<not> global ticket_or_hotfix" "\<not> sticky ticket_or_hotfix"
  by (simp_all add: ticket_or_hotfix_def literal_def)

lemma untracked_ungrouped_ticket: "\<not> global ungrouped_ticket" "\<not> sticky ungrouped_ticket"
  by (simp_all add: ungrouped_ticket_def literal_def)

lemma global_global_ticket: "global global_ticket"
  by (simp add: global_ticket_def literal_def)

subsection \<open>The link\<close>

text \<open>
  C5.  The link is fixed character by character.  In the inline style it is a space,
  \<^verbatim>\<open>([\<close>, the identifier, \<^verbatim>\<open>](\<close>, the base URL, \<^verbatim>\<open>/browse/\<close>, the identifier and
  \<^verbatim>\<open>))\<close>; in the newline style it is a line break (code unit 10), two spaces, \<^verbatim>\<open>[\<close>,
  the identifier, \<^verbatim>\<open>](\<close>, the base URL, \<^verbatim>\<open>/browse/\<close>, the identifier and \<^verbatim>\<open>)\<close>.  For
  \<^verbatim>\<open>QUIKS-674\<close> and \<^verbatim>\<open>https://example.atlassian.net\<close> the inline link is
  \<^verbatim>\<open> ([QUIKS-674](https://example.atlassian.net/browse/QUIKS-674))\<close>.
\<close>

theorem formatJiraLink_exact:
  "formatJiraLink ident baseUrl Inline
     = js '' (['' @ ident @ js '']('' @ baseUrl @ js ''/browse/'' @ ident @ js ''))''
   \<and> formatJiraLink ident baseUrl Newline
     = 10 # js ''  ['' @ ident @ js '']('' @ baseUrl @ js ''/browse/'' @ ident @ js '')''
   \<and> formatJiraLink (js ''QUIKS-674'') (js ''https://example.atlassian.net'') Inline
     = js '' ([QUIKS-674](https://example.atlassian.net/browse/QUIKS-674))''"
  by (simp add: formatJiraLink_def generateJiraLink_def js_def)

subsection \<open>The extractor\<close>

text \<open>
  C1.  The extractor does not always return the first captured group of the match.
  With the global rule \<^verbatim>\<open>/([A-Z]{2,10}-\d+)/gi\<close> the array that \<^verbatim>\<open>match\<close> returns holds
  the matched texts, entry 1 is the second of them, and on the branch name
  \<^verbatim>\<open>AB-12-CD-34\<close> the extractor returns \<^verbatim>\<open>CD-34\<close>, not the group \<^verbatim>\<open>AB-12\<close> of the
  match.  With \<^verbatim>\<open>/([A-Z]{2,10}-\d+)|hotfix/i\<close> the rule matches \<^verbatim>\<open>hotfix-login\<close>, entry 1
  is \<^verbatim>\<open>undefined\<close>, and the extractor raises a \<^verbatim>\<open>TypeError\<close>.  With the default rule
  the branch name \<^verbatim>\<open>playg-1008-foo\<close> yields \<^verbatim>\<open>PLAYG-1008\<close>, and \<^verbatim>\<open>fix-typo\<close> yields absent.
\<close>

theorem extractJiraTicket_reads_entry_1:
  assumes "ascii_faithful toUpperCase"
  shows "js_match global_ticket (js ''AB-12-CD-34'') li
           = (Some [Some (js ''AB-12''), Some (js ''CD-34'')], 0)
       \<and> extractJiraTicket toUpperCase (js ''AB-12-CD-34'') global_ticket li
           = (Inr (Some (js ''CD-34'')), 0)
       \<and> js_match ticket_or_hotfix (js ''hotfix-login'') li
           = (Some [Some (js ''hotfix''), None], li)
       \<and> extractJiraTicket toUpperCase (js ''hotfix-login'') ticket_or_hotfix li
           = (Inl TypeError, li)
       \<and> extractJiraTicket toUpperCase (js ''playg-1008-foo'') default_ticketPattern li
           = (Inr (Some (js ''PLAYG-1008'')), li)
       \<and> extractJiraTicket toUpperCase (js ''fix-typo'') default_ticketPattern li
           = (Inr None, li)"
proof -
  have m1: "js_match global_ticket (js ''AB-12-CD-34'') li
           = (Some [Some (js ''AB-12''), Some (js ''CD-34'')], 0)"
  proof -
    have "js_match global_ticket (js ''AB-12-CD-34'') 0
           = (Some [Some (js ''AB-12''), Some (js ''CD-34'')], 0)"
      by code_simp
    with js_match_global [OF global_global_ticket, of "js ''AB-12-CD-34''" li]
    show ?thesis by (rule trans)
  qed
  have e1: "extractJiraTicket toUpperCase (js ''AB-12-CD-34'') global_ticket li
           = (Inr (Some (js ''CD-34'')), 0)"
  proof (rule extract_global_eval [OF assms global_global_ticket])
    show "extractJiraTicket id (js ''AB-12-CD-34'') global_ticket 0
            = (Inr (Some (js ''CD-34'')), 0)"
      by code_simp
    show "case Inr (Some (js ''CD-34'')) of
            Inr (Some g) \<Rightarrow> list_all (\<lambda>c. c < 128) g | _ \<Rightarrow> True"
      by code_simp
    show "extractJiraTicket ascii_toUpperCase (js ''AB-12-CD-34'') global_ticket 0
            = (Inr (Some (js ''CD-34'')), 0)"
      by code_simp
  qed
  have m2: "js_match ticket_or_hotfix (js ''hotfix-login'') li
           = (Some [Some (js ''hotfix''), None], li)"
  proof -
    have "fst (js_match ticket_or_hotfix (js ''hotfix-login'') 0)
           = Some [Some (js ''hotfix''), None]"
      by code_simp
    with js_match_untracked [OF untracked_ticket_or_hotfix, of "js ''hotfix-login''" li]
    show ?thesis by simp
  qed
  have e2: "extractJiraTicket toUpperCase (js ''hotfix-login'') ticket_or_hotfix li
           = (Inl TypeError, li)"
  proof (rule extract_untracked_eval [OF assms untracked_ticket_or_hotfix])
    show "extractJiraTicket id (js ''hotfix-login'') ticket_or_hotfix 0 = (Inl TypeError, 0)"
      by code_simp
    show "case Inl TypeError of
            Inr (Some g) \<Rightarrow> list_all (\<lambda>c. c < 128) g | _ \<Rightarrow> True"
      by simp
    show "fst (extractJiraTicket ascii_toUpperCase (js ''hotfix-login'') ticket_or_hotfix 0)
            = Inl TypeError"
      by code_simp
  qed
  have e3: "extractJiraTicket toUpperCase (js ''playg-1008-foo'') default_ticketPattern li
           = (Inr (Some (js ''PLAYG-1008'')), li)"
  proof (rule extract_untracked_eval [OF assms untracked_default])
    show "extractJiraTicket id (js ''playg-1008-foo'') default_ticketPattern 0
            = (Inr (Some (js ''playg-1008'')), 0)"
      by code_simp
    show "case Inr (Some (js ''playg-1008'')) of
            Inr (Some g) \<Rightarrow> list_all (\<lambda>c. c < 128) g | _ \<Rightarrow> True"
      by code_simp
    show "fst (extractJiraTicket ascii_toUpperCase (js ''playg-1008-foo'') default_ticketPattern 0)
            = Inr (Some (js ''PLAYG-1008''))"
      by code_simp
  qed
  have e4: "extractJiraTicket toUpperCase (js ''fix-typo'') default_ticketPattern li
           = (Inr None, li)"
  proof (rule extract_untracked_eval [OF assms untracked_default])
    show "extractJiraTicket id (js ''fix-typo'') default_ticketPattern 0 = (Inr None, 0)"
      by code_simp
    show "case Inr None of
            Inr (Some g) \<Rightarrow> list_all (\<lambda>c. c < 128) g | _ \<Rightarrow> True"
      by simp
    show "fst (extractJiraTicket ascii_toUpperCase (js ''fix-typo'') default_ticketPattern 0)
            = Inr None"
      by code_simp
  qed
  from m1 e1 m2 e2 e3 e4 show ?thesis by simp
qed

theorem extractJiraTicket_reads_entry_1_witness:
  "ascii_faithful ascii_toUpperCase
   \<and> extractJiraTicket ascii_toUpperCase (js ''AB-12-CD-34'') global_ticket 0
       = (Inr (Some (js ''CD-34'')), 0)
   \<and> extractJiraTicket ascii_toUpperCase (js ''hotfix-login'') ticket_or_hotfix 0
       = (Inl TypeError, 0)
   \<and> extractJiraTicket ascii_toUpperCase (js ''playg-1008-foo'') default_ticketPattern 0
       = (Inr (Some (js ''PLAYG-1008'')), 0)"
  using extractJiraTicket_reads_entry_1 [OF ascii_faithful_ascii, of 0] ascii_faithful_ascii
  by simp

text \<open>
  C3.  Under the default rule the branch name \<^verbatim>\<open>P-123\<close> yields absent.  The branch
  name \<^verbatim>\<open>VERYLONGPROJECT-123\<close> does not: the pattern is not anchored, it matches the
  last ten letters of the project code with the number, and the extractor returns
  \<^verbatim>\<open>ONGPROJECT-123\<close>.
\<close>

theorem default_rule_on_long_project_code:
  assumes "ascii_faithful toUpperCase"
  shows "extractJiraTicket toUpperCase (js ''P-123'') default_ticketPattern li = (Inr None, li)
       \<and> js_match default_ticketPattern (js ''VERYLONGPROJECT-123'') li
           = (Some [Some (js ''ONGPROJECT-123''), Some (js ''ONGPROJECT-123'')], li)
       \<and> extractJiraTicket toUpperCase (js ''VERYLONGPROJECT-123'') default_ticketPattern li
           = (Inr (Some (js ''ONGPROJECT-123'')), li)"
proof -
  have e1: "extractJiraTicket toUpperCase (js ''P-123'') default_ticketPattern li = (Inr None, li)"
  proof (rule extract_untracked_eval [OF assms untracked_default])
    show "extractJiraTicket id (js ''P-123'') default_ticketPattern 0 = (Inr None, 0)"
      by code_simp
    show "case Inr None of
            Inr (Some g) \<Rightarrow> list_all (\<lambda>c. c < 128) g | _ \<Rightarrow> True"
      by simp
    show "fst (extractJiraTicket ascii_toUpperCase (js ''P-123'') default_ticketPattern 0)
            = Inr None"
      by code_simp
  qed
  have m: "js_match default_ticketPattern (js ''VERYLONGPROJECT-123'') li
           = (Some [Some (js ''ONGPROJECT-123''), Some (js ''ONGPROJECT-123'')], li)"
  proof -
    have "fst (js_match default_ticketPattern (js ''VERYLONGPROJECT-123'') 0)
           = Some [Some (js ''ONGPROJECT-123''), Some (js ''ONGPROJECT-123'')]"
      by code_simp
    with js_match_untracked [OF untracked_default, of "js ''VERYLONGPROJECT-123''" li]
    show ?thesis by simp
  qed
  have e2: "extractJiraTicket toUpperCase (js ''VERYLONGPROJECT-123'') default_ticketPattern li
           = (Inr (Some (js ''ONGPROJECT-123'')), li)"
  proof (rule extract_untracked_eval [OF assms untracked_default])
    show "extractJiraTicket id (js ''VERYLONGPROJECT-123'') default_ticketPattern 0
            = (Inr (Some (js ''ONGPROJECT-123'')), 0)"
      by code_simp
    show "case Inr (Some (js ''ONGPROJECT-123'')) of
            Inr (Some g) \<Rightarrow> list_all (\<lambda>c. c < 128) g | _ \<Rightarrow> True"
      by code_simp
    show "fst (extractJiraTicket ascii_toUpperCase (js ''VERYLONGPROJECT-123'')
                 default_ticketPattern 0)
            = Inr (Some (js ''ONGPROJECT-123''))"
      by code_simp
  qed
  from e1 m e2 show ?thesis by simp
qed

theorem default_rule_on_long_project_code_witness:
  "ascii_faithful ascii_toUpperCase
   \<and> extractJiraTicket ascii_toUpperCase (js ''P-123'') default_ticketPattern 0 = (Inr None, 0)
   \<and> extractJiraTicket ascii_toUpperCase (js ''VERYLONGPROJECT-123'') default_ticketPattern 0
       = (Inr (Some (js ''ONGPROJECT-123'')), 0)"
  using default_rule_on_long_project_code [OF ascii_faithful_ascii, of 0] ascii_faithful_ascii
  by simp

text \<open>
  C8.  Extraction raises with rules that are constructed without error.  The global
  rule \<^verbatim>\<open>/([A-Z]{2,10}-\d+)/gi\<close> gives on the branch name \<^verbatim>\<open>AB-12\<close> an array of one
  entry, and the rule \<^verbatim>\<open>/[A-Z]+-\d+/\<close>, which has no group, gives one on
  \<^verbatim>\<open>PLAYG-1008-test-feature\<close>; in both the extractor raises a \<^verbatim>\<open>TypeError\<close> during
  extraction.  With the default rule it raises on no branch name.
\<close>

theorem extractJiraTicket_raises:
  "js_match global_ticket (js ''AB-12'') li = (Some [Some (js ''AB-12'')], 0)
   \<and> extractJiraTicket toUpperCase (js ''AB-12'') global_ticket li = (Inl TypeError, 0)
   \<and> js_match ungrouped_ticket (js ''PLAYG-1008-test-feature'') li
       = (Some [Some (js ''PLAYG-1008'')], li)
   \<and> extractJiraTicket toUpperCase (js ''PLAYG-1008-test-feature'') ungrouped_ticket li
       = (Inl TypeError, li)
   \<and> (\<exists>t. fst (extractJiraTicket toUpperCase branchName default_ticketPattern li) = Inr t)"
proof -
  have m1: "js_match global_ticket (js ''AB-12'') li = (Some [Some (js ''AB-12'')], 0)"
  proof -
    have "js_match global_ticket (js ''AB-12'') 0 = (Some [Some (js ''AB-12'')], 0)"
      by code_simp
    with js_match_global [OF global_global_ticket, of "js ''AB-12''" li]
    show ?thesis by (rule trans)
  qed
  then have e1: "extractJiraTicket toUpperCase (js ''AB-12'') global_ticket li = (Inl TypeError, 0)"
    by (simp add: extractJiraTicket_def js_index_def)
  have m2: "js_match ungrouped_ticket (js ''PLAYG-1008-test-feature'') li
       = (Some [Some (js ''PLAYG-1008'')], li)"
  proof -
    have "fst (js_match ungrouped_ticket (js ''PLAYG-1008-test-feature'') 0)
           = Some [Some (js ''PLAYG-1008'')]"
      by code_simp
    with js_match_untracked [OF untracked_ungrouped_ticket, of "js ''PLAYG-1008-test-feature''" li]
    show ?thesis by simp
  qed
  then have e2: "extractJiraTicket toUpperCase (js ''PLAYG-1008-test-feature'') ungrouped_ticket li
       = (Inl TypeError, li)"
    by (simp add: extractJiraTicket_def js_index_def)
  from m1 e1 m2 e2 extract_never_raises [OF never_raises_default] show ?thesis by simp
qed

theorem extractJiraTicket_raises_witness:
  "extractJiraTicket ascii_toUpperCase (js ''AB-12'') global_ticket 0 = (Inl TypeError, 0)
   \<and> extractJiraTicket ascii_toUpperCase (js ''PLAYG-1008-test-feature'') ungrouped_ticket 0
       = (Inl TypeError, 0)
   \<and> (\<exists>t. fst (extractJiraTicket ascii_toUpperCase (js ''fix-typo'') default_ticketPattern 0)
            = Inr t)"
  using extractJiraTicket_raises [where toUpperCase = ascii_toUpperCase and li = 0
      and branchName = "js ''fix-typo''"]
  by simp

subsection \<open>Annotating a collection\<close>

lemma links_append: "links url style (ts @ ts') = links url style ts @ links url style ts'"
  by (simp add: links_def)

lemma grows_refl: "grows url style c c"
  unfolding grows_def by (auto simp: links_def intro: exI [of _ "[]"])

lemma grows_trans:
  assumes "grows url style c c'" and "grows url style c' c''"
  shows "grows url style c c''"
proof -
  from assms obtain ts ts' where "message c' = message c @ links url style ts"
    and "message c'' = message c' @ links url style ts'"
    unfolding grows_def by blast
  then have m: "message c'' = message c @ links url style (ts @ ts')"
    by (simp add: links_append)
  from assms obtain us us' where "bareMessage c' = bareMessage c @ links url style us"
    and "bareMessage c'' = bareMessage c' @ links url style us'"
    unfolding grows_def by blast
  then have b: "bareMessage c'' = bareMessage c @ links url style (us @ us')"
    by (simp add: links_append)
  from assms m b show ?thesis
    unfolding grows_def by auto
qed

lemma grows_step:
  assumes "commit_after up url rule style c li = (Inr c', li')"
  shows "grows url style c c'"
proof -
  from assms have f: "fst (commit_after up url rule style c li) = Inr c'" by simp
  have one: "formatJiraLink t url style = links url style [t]" for t
    by (simp add: links_def)
  have none: "m = m @ links url style []" for m
    by (simp add: links_def)
  from commit_after_messages [OF f]
  have "(\<exists>ts. message c' = message c @ links url style ts)
      \<and> (\<exists>ts. bareMessage c' = bareMessage c @ links url style ts)"
    by (metis one none)
  with commit_after_others [OF f] show ?thesis by (simp add: grows_def)
qed

lemma addJiraLinksToCommits_lastIndex:
  "lastIndex (snd (addJiraLinksToCommits up commits options st))
     = (case ticketPattern options of
          None \<Rightarrow> lastIndex st
        | Some r \<Rightarrow>
            snd (snd (run (commit_after up (the_jiraBaseUrl options) (the_ticketPattern options)
                        (the_linkStyle options)) commits (heap st) (start_index options st))))"
proof -
  let ?st1 = "st\<lparr>console :=
                    log_if (the_debug options)
                      (js ''Processing '' @ show_nat (length commits) @ js '' commits for Jira links'')
                      (console st),
                  lastIndex := start_index options st\<rparr>"
  let ?loop = "for_commits up (the_jiraBaseUrl options) (the_ticketPattern options)
                (the_linkStyle options) (the_debug options) commits ?st1"
  obtain e st2 where loop: "?loop = (e, st2)" by (cases ?loop)
  with for_commits_run [of up "the_jiraBaseUrl options" "the_ticketPattern options"
        "the_linkStyle options" "the_debug options" commits ?st1]
  have "run (commit_after up (the_jiraBaseUrl options) (the_ticketPattern options)
              (the_linkStyle options)) commits (heap st) (start_index options st)
          = (e, heap st2, lastIndex st2)"
    by simp
  with loop show ?thesis
    by (cases "ticketPattern options") (simp_all add: addJiraLinksToCommits_def)
qed

text \<open>
  C2.  Read as written, the claim fails for a sticky rule, whose \<^verbatim>\<open>match\<close> starts at
  the \<^verbatim>\<open>lastIndex\<close> that the match before it has left.  With
  \<^verbatim>\<open>/([A-Z]{2,10}-\d+)/iy\<close> and commits merged from \<^verbatim>\<open>AB-1\<close>, \<^verbatim>\<open>CD-2\<close> and \<^verbatim>\<open>EF-3\<close>, the
  first pass gives links to the first and the third commit and leaves the second as it
  is; the second pass appends a link to the second.
\<close>

theorem annotate_twice_with_sticky_rule:
  "fst (addJiraLinksToCommits ascii_toUpperCase [0, 1, 2]
          (no_options\<lparr>ticketPattern := Some sticky_ticket\<rparr>) three_branches) = Inr [0, 1, 2]
   \<and> map message (view [0, 1, 2]
        (snd (addJiraLinksToCommits ascii_toUpperCase [0, 1, 2]
               (no_options\<lparr>ticketPattern := Some sticky_ticket\<rparr>) three_branches)))
     = [js ''fix: a ([AB-1](https://yourcompany.atlassian.net/browse/AB-1))'',
        js ''fix: b'',
        js ''fix: c ([EF-3](https://yourcompany.atlassian.net/browse/EF-3))'']
   \<and> map message (view [0, 1, 2]
        (snd (addJiraLinksToCommits ascii_toUpperCase [0, 1, 2]
               (no_options\<lparr>ticketPattern := Some sticky_ticket\<rparr>)
               (snd (addJiraLinksToCommits ascii_toUpperCase [0, 1, 2]
                      (no_options\<lparr>ticketPattern := Some sticky_ticket\<rparr>) three_branches)))))
     = [js ''fix: a ([AB-1](https://yourcompany.atlassian.net/browse/AB-1))'',
        js ''fix: b ([CD-2](https://yourcompany.atlassian.net/browse/CD-2))'',
        js ''fix: c ([EF-3](https://yourcompany.atlassian.net/browse/EF-3))'']"
  by code_simp

text \<open>
  C2, amended.  Annotation is idempotent for every rule whose \<^verbatim>\<open>match\<close> does not read
  \<^verbatim>\<open>lastIndex\<close>, that is, every rule that is global or not sticky, the default rule
  among them.  For every collection, such options and every state, a second pass over
  the state that a first pass has left ends as the first did and leaves the store as it
  found it: every commit has the \<^verbatim>\<open>message\<close> and the \<^verbatim>\<open>bareMessage\<close> that one pass gave
  it, so no link is appended twice and none is removed or rewritten.
\<close>

theorem annotate_idempotent:
  assumes "stateless (the_ticketPattern options)"
    and "addJiraLinksToCommits toUpperCase commits options st = (r, st1)"
    and "addJiraLinksToCommits toUpperCase commits options st1 = (r', st2)"
  shows "r' = r \<and> heap st2 = heap st1 \<and> view commits st2 = view commits st1
       \<and> (\<forall>a. message (heap st2 a) = message (heap st1 a)
              \<and> bareMessage (heap st2 a) = bareMessage (heap st1 a))"
proof -
  from assms(1,2) obtain e
    where e: "run_pure (annotate_one toUpperCase options) commits (heap st) = (e, heap st1)"
      and r: "r = outcome commits e" by (rule addJiraLinksToCommits_pureD)
  from assms(1,3) obtain e'
    where e': "run_pure (annotate_one toUpperCase options) commits (heap st1) = (e', heap st2)"
      and r': "r' = outcome commits e'" by (rule addJiraLinksToCommits_pureD)
  from run_pure_idem [OF settles_annotate_one e] e' have "e' = e" "heap st2 = heap st1"
    by simp_all
  with r r' show ?thesis by (simp add: view_def)
qed

theorem annotate_idempotent_witness:
  "stateless (the_ticketPattern no_options)
   \<and> fst (addJiraLinksToCommits ascii_toUpperCase [0, 1, 2, 3, 4] no_options example_state)
       = Inr [0, 1, 2, 3, 4]
   \<and> fst (addJiraLinksToCommits ascii_toUpperCase [0, 1, 2, 3, 4] no_options
            (snd (addJiraLinksToCommits ascii_toUpperCase [0, 1, 2, 3, 4] no_options
                    example_state)))
       = Inr [0, 1, 2, 3, 4]
   \<and> message (heap (snd (addJiraLinksToCommits ascii_toUpperCase [0, 1, 2, 3, 4] no_options
                           example_state)) 0)
       = js ''feat: add feature ([PLAYG-1008](https://yourcompany.atlassian.net/browse/PLAYG-1008))''
   \<and> message (heap (snd (addJiraLinksToCommits ascii_toUpperCase [0, 1, 2, 3, 4] no_options
            (snd (addJiraLinksToCommits ascii_toUpperCase [0, 1, 2, 3, 4] no_options
                    example_state)))) 0)
       = js ''feat: add feature ([PLAYG-1008](https://yourcompany.atlassian.net/browse/PLAYG-1008))''"
proof -
  let ?once = "addJiraLinksToCommits ascii_toUpperCase [0, 1, 2, 3, 4] no_options example_state"
  let ?twice = "addJiraLinksToCommits ascii_toUpperCase [0, 1, 2, 3, 4] no_options (snd ?once)"
  have s: "stateless (the_ticketPattern no_options)"
    by (simp add: the_ticketPattern_def no_options_def stateless_default)
  have h1: "?once = (fst ?once, snd ?once)" by simp
  have h2: "?twice = (fst ?twice, snd ?twice)" by simp
  have a: "fst ?once = Inr [0, 1, 2, 3, 4]"
    by code_simp
  have b: "message (heap (snd ?once) 0)
       = js ''feat: add feature ([PLAYG-1008](https://yourcompany.atlassian.net/browse/PLAYG-1008))''"
    by code_simp
  from annotate_idempotent [OF s h1 h2]
  have "fst ?twice = fst ?once" and "heap (snd ?twice) = heap (snd ?once)" by simp_all
  with s a b show ?thesis by simp
qed

text \<open>
  C6.  Read as written, the claim fails in two ways.  With the global rule
  \<^verbatim>\<open>/([A-Z]{2,10}-\d+)/gi\<close> and one commit merged from \<^verbatim>\<open>PLAYG-1008-test-feature\<close>,
  the array that \<^verbatim>\<open>match\<close> returns has one entry and the pass raises a \<^verbatim>\<open>TypeError\<close>
  instead of returning the sequence.  With the sticky rule \<^verbatim>\<open>/([A-Z]{2,10}-\d+)/iy\<close> and
  an array that holds twice the one commit merged from \<^verbatim>\<open>AB-1CD-2\<close>, the pass returns
  and has appended two links to the message, one at each visit.
\<close>

theorem annotate_raises_or_appends_twice:
  "js_match global_ticket (js ''PLAYG-1008-test-feature'') 0 = (Some [Some (js ''PLAYG-1008'')], 0)
   \<and> fst (addJiraLinksToCommits ascii_toUpperCase [0]
            (no_options\<lparr>ticketPattern := Some global_ticket\<rparr>) example_state)
       = Inl TypeError
   \<and> fst (addJiraLinksToCommits ascii_toUpperCase [0, 0]
            (no_options\<lparr>ticketPattern := Some sticky_ticket\<rparr>) adjacent_tickets)
       = Inr [0, 0]
   \<and> message (heap adjacent_tickets 0) = js ''fix: a''
   \<and> message (heap (snd (addJiraLinksToCommits ascii_toUpperCase [0, 0]
                           (no_options\<lparr>ticketPattern := Some sticky_ticket\<rparr>) adjacent_tickets)) 0)
       = js ''fix: a ([AB-1](https://yourcompany.atlassian.net/browse/AB-1)) ([CD-2](https://yourcompany.atlassian.net/browse/CD-2))''"
  by code_simp

text \<open>
  C6, amended.  For every collection, options and state: with the default rule, and
  with every rule of which no match array lacks entry 1, the pass returns, and what it
  returns is the array it was given (so length and order are those of the input).
  Whatever the rule and however the pass ends: of every commit the \<^verbatim>\<open>sha\<close>, the pull
  request and all other fields are unchanged; its \<^verbatim>\<open>message\<close> and its \<^verbatim>\<open>bareMessage\<close>
  are each extended by appended links only, by at most one when the rule is global or
  not sticky; commits outside the collection are untouched; a commit with no pull
  request is unchanged, the loop body raises no error on it, and a collection of such
  commits raises no error.  When the rule is global or not sticky and the pass
  completes, every commit of the collection is what the loop body makes of it.
\<close>

theorem annotate_frame:
  assumes "addJiraLinksToCommits toUpperCase commits options st = (r, st')"
  shows "(r = Inr commits \<or> r = Inl TypeError)
       \<and> (ticketPattern options = None \<longrightarrow> r = Inr commits)
       \<and> (never_raises (the_ticketPattern options) \<longrightarrow> r = Inr commits)
       \<and> length (view commits st') = length (view commits st)
       \<and> map sha (view commits st') = map sha (view commits st)
       \<and> (\<forall>a. sha (heap st' a) = sha (heap st a)
              \<and> pullRequest (heap st' a) = pullRequest (heap st a)
              \<and> ConventionalCommit.more (heap st' a) = ConventionalCommit.more (heap st a))
       \<and> (\<forall>a. \<exists>ts. message (heap st' a) = message (heap st a)
                        @ links (the_jiraBaseUrl options) (the_linkStyle options) ts)
       \<and> (\<forall>a. \<exists>ts. bareMessage (heap st' a) = bareMessage (heap st a)
                        @ links (the_jiraBaseUrl options) (the_linkStyle options) ts)
       \<and> (stateless (the_ticketPattern options) \<longrightarrow>
            (\<forall>a. (message (heap st' a) = message (heap st a)
                   \<or> (\<exists>t. message (heap st' a) = message (heap st a)
                         @ formatJiraLink t (the_jiraBaseUrl options) (the_linkStyle options)))
                \<and> (bareMessage (heap st' a) = bareMessage (heap st a)
                   \<or> (\<exists>t. bareMessage (heap st' a) = bareMessage (heap st a)
                         @ formatJiraLink t (the_jiraBaseUrl options) (the_linkStyle options)))))
       \<and> (stateless (the_ticketPattern options) \<and> r = Inr commits \<longrightarrow>
            (\<forall>a \<in> set commits. annotate_one toUpperCase options (heap st a) = Inr (heap st' a)))
       \<and> (\<forall>a. a \<notin> set commits \<longrightarrow> heap st' a = heap st a)
       \<and> (\<forall>a. pullRequest (heap st a) = None \<longrightarrow> heap st' a = heap st a)
       \<and> (\<forall>a out li. pullRequest (heap st a) = None \<longrightarrow>
            (\<exists>out'. loop_body toUpperCase (the_jiraBaseUrl options) (the_ticketPattern options)
                      (the_linkStyle options) (the_debug options) (heap st a) out li
                    = (Inr (heap st a, out'), li)))
       \<and> ((\<forall>a \<in> set commits. pullRequest (heap st a) = None) \<longrightarrow> r = Inr commits)"
proof -
  let ?url = "the_jiraBaseUrl options" and ?R = "the_ticketPattern options"
    and ?style = "the_linkStyle options"
  let ?f = "commit_after toUpperCase ?url ?R ?style"
  have quiet: "\<exists>out'. loop_body toUpperCase ?url ?R ?style (the_debug options) (heap st a) out li
                    = (Inr (heap st a, out'), li)"
    if "pullRequest (heap st a) = None" for a out li
    using that by (simp add: loop_body_def)
  from assms obtain e li'
    where e: "run ?f commits (heap st) (start_index options st) = (e, heap st', li')"
      and r: "r = outcome commits e" by (rule addJiraLinksToCommits_runD)
  have returns: "r = Inr commits \<or> r = Inl TypeError"
  proof (cases e)
    case None
    with r show ?thesis by (simp add: outcome_def)
  next
    case (Some x)
    with r show ?thesis by (cases x) (simp add: outcome_def)
  qed
  have complete: "r = Inr commits" if "never_raises ?R"
  proof -
    from run_no_error [of ?f commits "heap st" "start_index options st"]
      commit_after_never_raises [OF that]
    have "fst (run ?f commits (heap st) (start_index options st)) = None" by blast
    with e r show ?thesis by (simp add: outcome_def)
  qed
  have default: "r = Inr commits" if "ticketPattern options = None"
    using that complete never_raises_default by (simp add: the_ticketPattern_def)
  have g: "grows ?url ?style (heap st a) (heap st' a)" for a
    by (rule run_invariant [of ?f "grows ?url ?style", OF _ _ _ e])
       (auto intro: grows_step grows_refl grows_trans)
  have others: "sha (heap st' a) = sha (heap st a)
              \<and> pullRequest (heap st' a) = pullRequest (heap st a)
              \<and> ConventionalCommit.more (heap st' a) = ConventionalCommit.more (heap st a)" for a
    using g [of a] by (simp add: grows_def)
  have order: "length (view commits st') = length (view commits st)
       \<and> map sha (view commits st') = map sha (view commits st)"
    using others by (simp add: view_def)
  have msg: "\<exists>ts. message (heap st' a) = message (heap st a) @ links ?url ?style ts" for a
    using g [of a] by (simp add: grows_def)
  have bare: "\<exists>ts. bareMessage (heap st' a) = bareMessage (heap st a) @ links ?url ?style ts" for a
    using g [of a] by (simp add: grows_def)
  have one: "(message (heap st' a) = message (heap st a)
                   \<or> (\<exists>t. message (heap st' a) = message (heap st a)
                         @ formatJiraLink t ?url ?style))
                \<and> (bareMessage (heap st' a) = bareMessage (heap st a)
                   \<or> (\<exists>t. bareMessage (heap st' a) = bareMessage (heap st a)
                         @ formatJiraLink t ?url ?style))"
    if "stateless ?R" for a
  proof -
    from that assms obtain e0
      where e0: "run_pure (annotate_one toUpperCase options) commits (heap st) = (e0, heap st')"
      by (rule addJiraLinksToCommits_pureD)
    from run_pure_rel [OF settles_annotate_one e0, of a]
      commit_after_messages [of toUpperCase ?url ?R ?style "heap st a" 0 "heap st' a"]
    show ?thesis by (auto simp: annotate_one_def)
  qed
  have pinned: "annotate_one toUpperCase options (heap st a) = Inr (heap st' a)"
    if "stateless ?R" and "r = Inr commits" and "a \<in> set commits" for a
  proof -
    from that(1) assms obtain e0
      where e0: "run_pure (annotate_one toUpperCase options) commits (heap st) = (e0, heap st')"
        and r0: "r = outcome commits e0"
      by (rule addJiraLinksToCommits_pureD)
    from that(2) r0 have "e0 = None" by (cases e0) (simp_all add: outcome_def)
    with e0 have "run_pure (annotate_one toUpperCase options) commits (heap st) = (None, heap st')"
      by simp
    from run_pure_done [OF settles_annotate_one this that(3)] show ?thesis .
  qed
  have outside: "a \<notin> set commits \<Longrightarrow> heap st' a = heap st a" for a
    using run_outside [OF e] by simp
  have skip: "?f c li = (Inr c, li)" if "pullRequest c = None" for c li
    using that by (simp add: commit_after_skip)
  have nopr: "heap st' a = heap st a" if "pullRequest (heap st a) = None" for a
    by (rule run_skip [of ?f "heap st a", OF _ e]) (simp_all add: skip [OF that])
  have noerr: "r = Inr commits" if "\<forall>a \<in> set commits. pullRequest (heap st a) = None"
  proof -
    from that have "run ?f commits (heap st) (start_index options st)
        = (None, heap st, start_index options st)"
      by (intro run_all_skip skip) simp
    with e r show ?thesis by (simp add: outcome_def)
  qed
  from returns default complete order others msg bare one pinned outside nopr quiet noerr
  show ?thesis by blast
qed

theorem annotate_frame_witness:
  "fst (addJiraLinksToCommits ascii_toUpperCase [0, 4] no_options example_state) = Inr [0, 4]
   \<and> ticketPattern no_options = None
   \<and> sha (heap (snd (addJiraLinksToCommits ascii_toUpperCase [0, 4] no_options example_state)) 0)
       = js ''3f2a9c1e7b''
   \<and> message (heap (snd (addJiraLinksToCommits ascii_toUpperCase [0, 4] no_options
                           example_state)) 0)
       = js ''feat: add feature ([PLAYG-1008](https://yourcompany.atlassian.net/browse/PLAYG-1008))''
   \<and> pullRequest (heap example_state 4) = None
   \<and> heap (snd (addJiraLinksToCommits ascii_toUpperCase [0, 4] no_options example_state)) 4
       = heap example_state 4
   \<and> heap (snd (addJiraLinksToCommits ascii_toUpperCase [0, 4] no_options example_state)) 1
       = heap example_state 1
   \<and> never_raises (the_ticketPattern no_options)
   \<and> stateless (the_ticketPattern no_options)
   \<and> annotate_one ascii_toUpperCase no_options (heap example_state 0)
       = Inr (heap (snd (addJiraLinksToCommits ascii_toUpperCase [0, 4] no_options
                           example_state)) 0)"
proof -
  let ?res = "addJiraLinksToCommits ascii_toUpperCase [0, 4] no_options example_state"
  have h: "?res = (fst ?res, snd ?res)" by simp
  note frame = annotate_frame [OF h]
  have n: "ticketPattern no_options = None"
    by (simp add: no_options_def)
  from frame n have a: "fst ?res = Inr [0, 4]" by blast
  have nr: "never_raises (the_ticketPattern no_options)"
    by (simp add: the_ticketPattern_def no_options_def never_raises_default)
  have s: "stateless (the_ticketPattern no_options)"
    by (simp add: the_ticketPattern_def no_options_def stateless_default)
  from frame s a
  have "\<forall>x \<in> set [0, 4]. annotate_one ascii_toUpperCase no_options (heap example_state x)
          = Inr (heap (snd ?res) x)"
    by blast
  then have p: "annotate_one ascii_toUpperCase no_options (heap example_state 0)
          = Inr (heap (snd ?res) 0)"
    by simp
  have b: "message (heap (snd ?res) 0)
       = js ''feat: add feature ([PLAYG-1008](https://yourcompany.atlassian.net/browse/PLAYG-1008))''"
    by code_simp
  have c: "sha (heap example_state 0) = js ''3f2a9c1e7b''"
    by (simp add: example_state_def feature_commit_def)
  have d: "pullRequest (heap example_state 4) = None"
    by (simp add: example_state_def direct_commit_def)
  from frame have "sha (heap (snd ?res) 0) = sha (heap example_state 0)" by blast
  moreover from frame d have "heap (snd ?res) 4 = heap example_state 4" by blast
  moreover from frame have "heap (snd ?res) 1 = heap example_state 1" by simp
  ultimately show ?thesis using a b c d n nr s p by simp
qed

text \<open>
  C7.  The two duplicate checks are independent.  For a commit whose branch name yields
  an identifier that occurs in its \<^verbatim>\<open>bareMessage\<close> and not in its \<^verbatim>\<open>message\<close>, the loop
  body appends the link to the \<^verbatim>\<open>message\<close> and changes nothing else, whatever the rule
  and the \<^verbatim>\<open>lastIndex\<close> at which it yields the identifier.  So does the pass on the
  commit alone, which completes, when it starts at that \<^verbatim>\<open>lastIndex\<close> or the rule is
  global or not sticky; and so does, when the rule is global or not sticky, every pass
  that completes on a collection holding the commit.
\<close>

theorem message_and_bareMessage_independent:
  assumes "pullRequest (heap st a) = Some pr" and "headBranchName pr = Some branchName"
    and "branchName \<noteq> []"
    and "fst (extractJiraTicket toUpperCase branchName (the_ticketPattern options) li)
           = Inr (Some ticketId)"
    and "str_includes (bareMessage (heap st a)) ticketId"
    and "\<not> str_includes (message (heap st a)) ticketId"
  shows "(\<exists>out' li'. loop_body toUpperCase (the_jiraBaseUrl options) (the_ticketPattern options)
                   (the_linkStyle options) (the_debug options) (heap st a) out li
               = (Inr ((heap st a)\<lparr>message := message (heap st a)
                         @ formatJiraLink ticketId (the_jiraBaseUrl options) (the_linkStyle options)\<rparr>,
                       out'), li'))
       \<and> (stateless (the_ticketPattern options) \<and> a \<in> set commits
            \<and> fst (addJiraLinksToCommits toUpperCase commits options st) = Inr commits
            \<longrightarrow> heap (snd (addJiraLinksToCommits toUpperCase commits options st)) a
                = (heap st a)\<lparr>message := message (heap st a)
                     @ formatJiraLink ticketId (the_jiraBaseUrl options) (the_linkStyle options)\<rparr>)
       \<and> (stateless (the_ticketPattern options) \<or> li = start_index options st
            \<longrightarrow> fst (addJiraLinksToCommits toUpperCase [a] options st) = Inr [a]
              \<and> heap (snd (addJiraLinksToCommits toUpperCase [a] options st)) a
                = (heap st a)\<lparr>message := message (heap st a)
                     @ formatJiraLink ticketId (the_jiraBaseUrl options) (the_linkStyle options)\<rparr>)"
proof -
  let ?url = "the_jiraBaseUrl options" and ?R = "the_ticketPattern options"
    and ?style = "the_linkStyle options"
  let ?c' = "(heap st a)\<lparr>message := message (heap st a) @ formatJiraLink ticketId ?url ?style\<rparr>"
  note body = loop_body_message_only [OF assms]
  have at_li: "fst (commit_after toUpperCase ?url ?R ?style (heap st a) li) = Inr ?c'"
    by (simp add: commit_after_def body)
  have pure: "annotate_one toUpperCase options (heap st a) = Inr ?c'" if "stateless ?R"
    using at_li commit_after_stateless [OF that, of toUpperCase ?url ?style "heap st a" li]
    by (simp add: annotate_one_def)
  have batch: "heap (snd (addJiraLinksToCommits toUpperCase commits options st)) a = ?c'"
    if s: "stateless ?R" and "a \<in> set commits"
      and "fst (addJiraLinksToCommits toUpperCase commits options st) = Inr commits"
  proof -
    obtain r st' where res: "addJiraLinksToCommits toUpperCase commits options st = (r, st')"
      by (cases "addJiraLinksToCommits toUpperCase commits options st")
    with s obtain e
      where e: "run_pure (annotate_one toUpperCase options) commits (heap st) = (e, heap st')"
        and r: "r = outcome commits e" by (rule addJiraLinksToCommits_pureD)
    from that(3) res r have "e = None" by (cases e) (simp_all add: outcome_def)
    with e have "run_pure (annotate_one toUpperCase options) commits (heap st) = (None, heap st')"
      by simp
    from run_pure_done [OF settles_annotate_one this that(2)] pure [OF s] res
    show ?thesis by simp
  qed
  have single: "fst (addJiraLinksToCommits toUpperCase [a] options st) = Inr [a]
        \<and> heap (snd (addJiraLinksToCommits toUpperCase [a] options st)) a = ?c'"
    if "stateless ?R \<or> li = start_index options st"
  proof -
    from that at_li
    have "fst (commit_after toUpperCase ?url ?R ?style (heap st a) (start_index options st))
        = Inr ?c'"
      using commit_after_stateless [of ?R toUpperCase ?url ?style "heap st a"] by metis
    then have "fst (run (commit_after toUpperCase ?url ?R ?style) [a] (heap st)
                      (start_index options st)) = None
        \<and> fst (snd (run (commit_after toUpperCase ?url ?R ?style) [a] (heap st)
                      (start_index options st))) a = ?c'"
      by (cases "commit_after toUpperCase ?url ?R ?style (heap st a) (start_index options st)")
         simp
    with addJiraLinksToCommits_run [of toUpperCase "[a]" options st]
    show ?thesis by (simp add: outcome_def)
  qed
  from body batch single show ?thesis by blast
qed

theorem message_and_bareMessage_independent_witness:
  "pullRequest (heap example_state 2)
       = Some \<lparr>headBranchName = Some (js ''QUIKS-674-UI-analytics-basic-tests'')\<rparr>
   \<and> fst (extractJiraTicket ascii_toUpperCase (js ''QUIKS-674-UI-analytics-basic-tests'')
            (the_ticketPattern no_options) 0)
       = Inr (Some (js ''QUIKS-674''))
   \<and> str_includes (bareMessage (heap example_state 2)) (js ''QUIKS-674'')
   \<and> \<not> str_includes (message (heap example_state 2)) (js ''QUIKS-674'')
   \<and> stateless (the_ticketPattern no_options)
   \<and> fst (addJiraLinksToCommits ascii_toUpperCase [0, 2] no_options example_state) = Inr [0, 2]
   \<and> message (heap (snd (addJiraLinksToCommits ascii_toUpperCase [0, 2] no_options
                           example_state)) 2)
       = js ''feat: add export ([QUIKS-674](https://yourcompany.atlassian.net/browse/QUIKS-674))''
   \<and> bareMessage (heap (snd (addJiraLinksToCommits ascii_toUpperCase [0, 2] no_options
                               example_state)) 2)
       = js ''feat: add export (QUIKS-674)''"
proof -
  let ?res = "addJiraLinksToCommits ascii_toUpperCase [0, 2] no_options example_state"
  have c2: "heap example_state 2 = export_commit"
    by (simp add: example_state_def)
  have a: "pullRequest (heap example_state 2)
       = Some \<lparr>headBranchName = Some (js ''QUIKS-674-UI-analytics-basic-tests'')\<rparr>"
    by (simp add: c2 export_commit_def)
  have b: "headBranchName \<lparr>headBranchName = Some (js ''QUIKS-674-UI-analytics-basic-tests'')\<rparr>
       = Some (js ''QUIKS-674-UI-analytics-basic-tests'')"
    by simp
  have c: "js ''QUIKS-674-UI-analytics-basic-tests'' \<noteq> []"
    by (simp add: js_def)
  have d: "fst (extractJiraTicket ascii_toUpperCase (js ''QUIKS-674-UI-analytics-basic-tests'')
                  (the_ticketPattern no_options) 0)
       = Inr (Some (js ''QUIKS-674''))"
    by code_simp
  have e: "str_includes (bareMessage (heap example_state 2)) (js ''QUIKS-674'')"
    unfolding c2 by code_simp
  have f: "\<not> str_includes (message (heap example_state 2)) (js ''QUIKS-674'')"
    unfolding c2 by code_simp
  have s: "stateless (the_ticketPattern no_options)"
    by (simp add: the_ticketPattern_def no_options_def stateless_default)
  have g: "fst ?res = Inr [0, 2]"
    by code_simp
  have l: "formatJiraLink (js ''QUIKS-674'') (the_jiraBaseUrl no_options) (the_linkStyle no_options)
       = js '' ([QUIKS-674](https://yourcompany.atlassian.net/browse/QUIKS-674))''"
    by code_simp
  have m: "js ''feat: add export''
             @ js '' ([QUIKS-674](https://yourcompany.atlassian.net/browse/QUIKS-674))''
       = js ''feat: add export ([QUIKS-674](https://yourcompany.atlassian.net/browse/QUIKS-674))''"
    by (simp add: js_def)
  from message_and_bareMessage_independent [OF a b c d e f, where commits = "[0, 2]"] s g
  have "heap (snd ?res) 2
      = (heap example_state 2)\<lparr>message := message (heap example_state 2)
           @ formatJiraLink (js ''QUIKS-674'') (the_jiraBaseUrl no_options)
               (the_linkStyle no_options)\<rparr>"
    by simp
  then have "message (heap (snd ?res) 2)
        = js ''feat: add export ([QUIKS-674](https://yourcompany.atlassian.net/browse/QUIKS-674))''"
    and "bareMessage (heap (snd ?res) 2) = js ''feat: add export (QUIKS-674)''"
    by (simp_all add: l m c2 export_commit_def)
  with a d e f s g show ?thesis by simp
qed

text \<open>
  C9.  The \<^verbatim>\<open>debug\<close> option changes what is printed and nothing else.  For every
  collection, options and state, two passes that differ in the \<^verbatim>\<open>debug\<close> option alone
  end alike (both return the array, or both raise) and leave the same store and the same
  \<^verbatim>\<open>lastIndex\<close>, so every commit has the same \<^verbatim>\<open>message\<close> and \<^verbatim>\<open>bareMessage\<close>; with
  \<^verbatim>\<open>debug\<close> off nothing is printed.
\<close>

theorem debug_changes_console_only:
  "fst (addJiraLinksToCommits toUpperCase commits (options\<lparr>debug := d\<rparr>) st)
     = fst (addJiraLinksToCommits toUpperCase commits (options\<lparr>debug := d'\<rparr>) st)
   \<and> heap (snd (addJiraLinksToCommits toUpperCase commits (options\<lparr>debug := d\<rparr>) st))
     = heap (snd (addJiraLinksToCommits toUpperCase commits (options\<lparr>debug := d'\<rparr>) st))
   \<and> lastIndex (snd (addJiraLinksToCommits toUpperCase commits (options\<lparr>debug := d\<rparr>) st))
     = lastIndex (snd (addJiraLinksToCommits toUpperCase commits (options\<lparr>debug := d'\<rparr>) st))
   \<and> view commits (snd (addJiraLinksToCommits toUpperCase commits (options\<lparr>debug := Some True\<rparr>) st))
     = view commits (snd (addJiraLinksToCommits toUpperCase commits (options\<lparr>debug := Some False\<rparr>) st))
   \<and> console (snd (addJiraLinksToCommits toUpperCase commits (options\<lparr>debug := Some False\<rparr>) st))
     = console st"
proof -
  have opts: "the_jiraBaseUrl (options\<lparr>debug := x\<rparr>) = the_jiraBaseUrl options"
    "the_ticketPattern (options\<lparr>debug := x\<rparr>) = the_ticketPattern options"
    "the_linkStyle (options\<lparr>debug := x\<rparr>) = the_linkStyle options"
    "start_index (options\<lparr>debug := x\<rparr>) st = start_index options st"
    "ticketPattern (options\<lparr>debug := x\<rparr>) = ticketPattern options" for x
    by (simp_all add: the_jiraBaseUrl_def the_ticketPattern_def the_linkStyle_def start_index_def)
  have same: "(fst (addJiraLinksToCommits toUpperCase commits (options\<lparr>debug := x\<rparr>) st),
               heap (snd (addJiraLinksToCommits toUpperCase commits (options\<lparr>debug := x\<rparr>) st)))
      = (fst (addJiraLinksToCommits toUpperCase commits (options\<lparr>debug := y\<rparr>) st),
         heap (snd (addJiraLinksToCommits toUpperCase commits (options\<lparr>debug := y\<rparr>) st)))"
    for x y
    by (simp only: addJiraLinksToCommits_run opts)
  have li: "lastIndex (snd (addJiraLinksToCommits toUpperCase commits (options\<lparr>debug := x\<rparr>) st))
      = lastIndex (snd (addJiraLinksToCommits toUpperCase commits (options\<lparr>debug := y\<rparr>) st))"
    for x y
    by (simp only: addJiraLinksToCommits_lastIndex opts)
  have c: "console (snd (addJiraLinksToCommits toUpperCase commits (options\<lparr>debug := Some False\<rparr>) st))
     = console st"
    by (rule addJiraLinksToCommits_quiet) (simp add: the_debug_def)
  from same [of d d'] same [of "Some True" "Some False"] li [of d d'] c show ?thesis
    by (simp add: view_def)
qed

theorem debug_changes_console_only_witness:
  "fst (addJiraLinksToCommits ascii_toUpperCase [0, 1, 4] (no_options\<lparr>debug := Some True\<rparr>)
          example_state)
     = fst (addJiraLinksToCommits ascii_toUpperCase [0, 1, 4] (no_options\<lparr>debug := Some False\<rparr>)
              example_state)
   \<and> heap (snd (addJiraLinksToCommits ascii_toUpperCase [0, 1, 4] (no_options\<lparr>debug := Some True\<rparr>)
                  example_state))
     = heap (snd (addJiraLinksToCommits ascii_toUpperCase [0, 1, 4]
                    (no_options\<lparr>debug := Some False\<rparr>) example_state))
   \<and> console (snd (addJiraLinksToCommits ascii_toUpperCase [0, 1, 4]
                     (no_options\<lparr>debug := Some False\<rparr>) example_state))
     = []
   \<and> console (snd (addJiraLinksToCommits ascii_toUpperCase [0, 1, 4]
                     (no_options\<lparr>debug := Some True\<rparr>) example_state))
     = [js ''Processing 3 commits for Jira links'',
        js ''Found Jira ticket PLAYG-1008 in branch: PLAYG-1008-test-feature'',
        js ''Added Jira link to commit message'',
        js ''No Jira ticket found in branch: hotfix-login'',
        js ''Commit 0c4e5d6 has no associated pull request'']"
proof -
  have a: "console example_state = []"
    by (simp add: example_state_def)
  have b: "console (snd (addJiraLinksToCommits ascii_toUpperCase [0, 1, 4]
                           (no_options\<lparr>debug := Some True\<rparr>) example_state))
     = [js ''Processing 3 commits for Jira links'',
        js ''Found Jira ticket PLAYG-1008 in branch: PLAYG-1008-test-feature'',
        js ''Added Jira link to commit message'',
        js ''No Jira ticket found in branch: hotfix-login'',
        js ''Commit 0c4e5d6 has no associated pull request'']"
    by code_simp
  from debug_changes_console_only [where toUpperCase = ascii_toUpperCase
      and commits = "[0, 1, 4]" and options = no_options
      and d = "Some True" and d' = "Some False" and st = example_state]
    a b
  show ?thesis by simp
qed

text \<open>
  C10.  A pull request whose branch name is the empty string is treated as one with no
  branch name.  For such a commit the loop body returns the commit as it is, leaves the
  \<^verbatim>\<open>lastIndex\<close> of the rule as it is and prints, with \<^verbatim>\<open>debug\<close> on, the line that it
  prints for a commit with no branch name, whatever the rule: the extractor is not
  applied.  No pass changes the commit.
\<close>

theorem empty_branch_name_is_no_branch_name:
  assumes "pullRequest (heap st a) = Some pr" and "headBranchName pr = Some []"
  shows "loop_body toUpperCase url rule style dbg (heap st a) out li
           = (Inr (heap st a,
                   log_if dbg (js ''Commit '' @ take 7 (sha (heap st a))
                                 @ js '' has no associated pull request'') out),
              li)
       \<and> loop_body toUpperCase url rule style dbg
             ((heap st a)\<lparr>pullRequest := Some (pr\<lparr>headBranchName := None\<rparr>)\<rparr>) out li
           = (Inr ((heap st a)\<lparr>pullRequest := Some (pr\<lparr>headBranchName := None\<rparr>)\<rparr>,
                   log_if dbg (js ''Commit '' @ take 7 (sha (heap st a))
                                 @ js '' has no associated pull request'') out),
              li)
       \<and> heap (snd (addJiraLinksToCommits toUpperCase commits options st)) a = heap st a"
proof -
  let ?f = "commit_after toUpperCase (the_jiraBaseUrl options) (the_ticketPattern options)
              (the_linkStyle options)"
  have skip: "Option.bind (pullRequest (heap st a)) (\<lambda>pr. truthy_string (headBranchName pr)) = None"
    using assms by (simp add: truthy_string_def)
  obtain r st' where res: "addJiraLinksToCommits toUpperCase commits options st = (r, st')"
    by (cases "addJiraLinksToCommits toUpperCase commits options st")
  then obtain e li' where e: "run ?f commits (heap st) (start_index options st) = (e, heap st', li')"
    by (rule addJiraLinksToCommits_runD)
  have "heap st' a = heap st a"
    by (rule run_skip [of ?f "heap st a", OF _ e]) (simp_all add: commit_after_skip [OF skip])
  with res have "heap (snd (addJiraLinksToCommits toUpperCase commits options st)) a = heap st a"
    by simp
  with assms show ?thesis
    by (simp add: loop_body_def truthy_string_def)
qed

theorem empty_branch_name_is_no_branch_name_witness:
  "pullRequest (heap example_state 3) = Some \<lparr>headBranchName = Some []\<rparr>
   \<and> extractJiraTicket ascii_toUpperCase [] empty_rule 0 = (Inl TypeError, 0)
   \<and> loop_body ascii_toUpperCase (js ''https://yourcompany.atlassian.net'') empty_rule Inline True
        (heap example_state 3) [] 0
       = (Inr (heap example_state 3, [js ''Commit 9b8c7d6 has no associated pull request'']), 0)
   \<and> fst (addJiraLinksToCommits ascii_toUpperCase [3, 0]
            (no_options\<lparr>ticketPattern := Some empty_rule\<rparr>) example_state) = Inl TypeError
   \<and> heap (snd (addJiraLinksToCommits ascii_toUpperCase [3, 0]
            (no_options\<lparr>ticketPattern := Some empty_rule\<rparr>) example_state)) 3
       = heap example_state 3"
proof -
  have c3: "heap example_state 3 = unnamed_branch_commit"
    by (simp add: example_state_def)
  have a: "pullRequest (heap example_state 3) = Some \<lparr>headBranchName = Some []\<rparr>"
    by (simp add: c3 unnamed_branch_commit_def)
  have b: "headBranchName \<lparr>headBranchName = Some []\<rparr> = Some []"
    by simp
  have c: "extractJiraTicket ascii_toUpperCase [] empty_rule 0 = (Inl TypeError, 0)"
    by code_simp
  have d: "fst (addJiraLinksToCommits ascii_toUpperCase [3, 0]
            (no_options\<lparr>ticketPattern := Some empty_rule\<rparr>) example_state) = Inl TypeError"
    by code_simp
  have e: "log_if True (js ''Commit '' @ take 7 (sha (heap example_state 3))
                          @ js '' has no associated pull request'') []
        = [js ''Commit 9b8c7d6 has no associated pull request'']"
    by (simp add: c3 unnamed_branch_commit_def log_if_def js_def)
  from empty_branch_name_is_no_branch_name [OF a b,
      where toUpperCase = ascii_toUpperCase
        and url = "js ''https://yourcompany.atlassian.net''" and rule = empty_rule
        and style = Inline and dbg = True and out = "[]" and li = 0 and commits = "[3, 0]"
        and options = "no_options\<lparr>ticketPattern := Some empty_rule\<rparr>"]
    a c d e
  show ?thesis by simp
qed

subsection \<open>The plugin's fallback\<close>

text \<open>
  C4.  A plugin with the rule \<^verbatim>\<open>/([A-Z]{2,10}-\d+)|hotfix/i\<close> processes two commits, the
  first merged from \<^verbatim>\<open>PLAYG-1008-test-feature\<close>, the second from \<^verbatim>\<open>hotfix-login\<close>.  The
  second raises a \<^verbatim>\<open>TypeError\<close>, which \<^verbatim>\<open>processCommits\<close> catches and logs; it returns
  the array it was given, whose first commit has already been given its link in place:
  what the caller receives is annotated in part, not the collection as it was.
\<close>

theorem processCommits_returns_partly_annotated:
  assumes "ascii_faithful toUpperCase"
  shows "fst (processCommits toUpperCase (no_options\<lparr>ticketPattern := Some ticket_or_hotfix\<rparr>)
                [0, 1] example_state)
           = [0, 1]
       \<and> map message (view [0, 1] example_state) = [js ''feat: add feature'', js ''fix: login'']
       \<and> map message (view [0, 1]
            (snd (processCommits toUpperCase (no_options\<lparr>ticketPattern := Some ticket_or_hotfix\<rparr>)
                    [0, 1] example_state)))
           = [js ''feat: add feature ([PLAYG-1008](https://yourcompany.atlassian.net/browse/PLAYG-1008))'',
              js ''fix: login'']
       \<and> map bareMessage (view [0, 1]
            (snd (processCommits toUpperCase (no_options\<lparr>ticketPattern := Some ticket_or_hotfix\<rparr>)
                    [0, 1] example_state)))
           = [js ''feat: add feature ([PLAYG-1008](https://yourcompany.atlassian.net/browse/PLAYG-1008))'',
              js ''fix: login'']
       \<and> logger (snd (processCommits toUpperCase (no_options\<lparr>ticketPattern := Some ticket_or_hotfix\<rparr>)
                    [0, 1] example_state))
           = [Info (js ''JiraLinkPlugin processing 2 commits''), Error TypeError]"
proof -
  let ?opts = "no_options\<lparr>ticketPattern := Some ticket_or_hotfix\<rparr>"
  have R: "the_ticketPattern ?opts = ticket_or_hotfix"
    by (simp add: the_ticketPattern_def)
  have a0: "agree_on toUpperCase ascii_toUpperCase ticket_or_hotfix feature_commit"
  proof (rule agree_on_untracked [OF assms untracked_ticket_or_hotfix])
    show "Option.bind (pullRequest feature_commit) (\<lambda>pr. truthy_string (headBranchName pr))
            = Some (js ''PLAYG-1008-test-feature'')"
      by (simp add: feature_commit_def truthy_string_def js_def)
    show "case Some (js ''PLAYG-1008-test-feature'') of None \<Rightarrow> True
          | Some b \<Rightarrow> (case fst (extractJiraTicket id b ticket_or_hotfix 0) of
                         Inr (Some g) \<Rightarrow> list_all (\<lambda>c. c < 128) g
                       | _ \<Rightarrow> True)"
      by code_simp
  qed
  have a1: "agree_on toUpperCase ascii_toUpperCase ticket_or_hotfix hotfix_commit"
  proof (rule agree_on_untracked [OF assms untracked_ticket_or_hotfix])
    show "Option.bind (pullRequest hotfix_commit) (\<lambda>pr. truthy_string (headBranchName pr))
            = Some (js ''hotfix-login'')"
      by (simp add: hotfix_commit_def truthy_string_def js_def)
    show "case Some (js ''hotfix-login'') of None \<Rightarrow> True
          | Some b \<Rightarrow> (case fst (extractJiraTicket id b ticket_or_hotfix 0) of
                         Inr (Some g) \<Rightarrow> list_all (\<lambda>c. c < 128) g
                       | _ \<Rightarrow> True)"
      by code_simp
  qed
  have "agree_on toUpperCase ascii_toUpperCase (the_ticketPattern ?opts) (heap example_state x)"
    if "x \<in> set [0, 1]" for x
    using that a0 a1 by (auto simp: R example_state_def)
  then have same: "processCommits toUpperCase ?opts [0, 1] example_state
      = processCommits ascii_toUpperCase ?opts [0, 1] example_state"
    by (rule processCommits_cong_up)
  have "fst (processCommits ascii_toUpperCase ?opts [0, 1] example_state) = [0, 1]
       \<and> map message (view [0, 1] example_state) = [js ''feat: add feature'', js ''fix: login'']
       \<and> map message (view [0, 1]
            (snd (processCommits ascii_toUpperCase ?opts [0, 1] example_state)))
           = [js ''feat: add feature ([PLAYG-1008](https://yourcompany.atlassian.net/browse/PLAYG-1008))'',
              js ''fix: login'']
       \<and> map bareMessage (view [0, 1]
            (snd (processCommits ascii_toUpperCase ?opts [0, 1] example_state)))
           = [js ''feat: add feature ([PLAYG-1008](https://yourcompany.atlassian.net/browse/PLAYG-1008))'',
              js ''fix: login'']
       \<and> logger (snd (processCommits ascii_toUpperCase ?opts [0, 1] example_state))
           = [Info (js ''JiraLinkPlugin processing 2 commits''), Error TypeError]"
    by code_simp
  with same show ?thesis by simp
qed

theorem processCommits_returns_partly_annotated_witness:
  "ascii_faithful ascii_toUpperCase
   \<and> fst (processCommits ascii_toUpperCase (no_options\<lparr>ticketPattern := Some ticket_or_hotfix\<rparr>)
            [0, 1] example_state)
       = [0, 1]
   \<and> map message (view [0, 1]
        (snd (processCommits ascii_toUpperCase (no_options\<lparr>ticketPattern := Some ticket_or_hotfix\<rparr>)
                [0, 1] example_state)))
       = [js ''feat: add feature ([PLAYG-1008](https://yourcompany.atlassian.net/browse/PLAYG-1008))'',
          js ''fix: login'']"
  using processCommits_returns_partly_annotated [OF ascii_faithful_ascii] ascii_faithful_ascii
  by simp

end
